theory Spec2Isabelle
  imports Complex_Main "HOL-Library.AList" "HOL-Library.Finite_Map" "HOL-Library.Char_ord"
    "HOL-Library.List_Lexorder"
begin

section \<open>Python values, errors and the schema\<close>

text \<open>
  The exceptions raised by the modelled functions.  Every \<^verbatim>\<open>raise\<close> of the source and
  every failing attribute access, subscript or iteration is a branch that returns
  \<open>Inl\<close> of one of these.
\<close>

datatype error =
    ValueError string
  | AttributeError
  | TypeError
  | KeyError string
  | IndexError

text \<open>
  The value of a Python \<^verbatim>\<open>float\<close>, or the exact value of a \<^verbatim>\<open>Decimal\<close>: a rational
  number, an infinity or not-a-number.
\<close>

datatype pyfloat = FloatVal rat | FloatInf | FloatNegInf | FloatNaN

text \<open>
  Plain Python data: what \<^verbatim>\<open>getattr(model, attr)\<close> yields for a mapped column and what
  a serialized entity holds.  A \<^verbatim>\<open>date\<close> or naive \<^verbatim>\<open>datetime\<close> is identified with the
  text its \<^verbatim>\<open>isoformat()\<close> returns.  \<open>PDecimal v f\<close> is a \<^verbatim>\<open>Decimal\<close> of exact value \<open>v\<close>
  for which \<^verbatim>\<open>float(value)\<close> returns \<open>f\<close>: the rounding is the interpreter's.  A
  \<^verbatim>\<open>dict\<close> with string keys is a finite map: Python's \<^verbatim>\<open>==\<close> on dicts does not read the
  insertion order.
\<close>

datatype pyval =
    PNone
  | PBool bool
  | PInt int
  | PFloat pyfloat
  | PStr string
  | PDatetime string
  | PDecimal pyfloat pyfloat
  | PList "pyval list"
  | PDict "(string, pyval) fmap"




type_synonym item = "(string, pyval) fmap"

type_synonym model = string

datatype direction = ONETOMANY | MANYTOONE | MANYTOMANY

record column =
  col_key :: string
  col_name :: string

text \<open>The part of a \<^verbatim>\<open>RelationshipProperty\<close> that the source reads.\<close>

record relationship_property =
  direction :: direction
  mapper_class :: model
  uselist :: bool
  local_columns :: "column list"
  local_remote_pairs :: "(column option \<times> column) list"

text \<open>
  What \<^verbatim>\<open>getattr(model_class, name)\<close> can be: an instrumented attribute whose
  \<^verbatim>\<open>property\<close> is a \<^verbatim>\<open>ColumnProperty\<close> or a \<^verbatim>\<open>RelationshipProperty\<close>, or an
  \<^verbatim>\<open>AssociationProxy\<close> (with its \<^verbatim>\<open>local_attr\<close> and \<^verbatim>\<open>remote_attr\<close>; \<open>None\<close> when
  reading them raises \<^verbatim>\<open>AttributeError\<close>).  The last two are the \<^verbatim>\<open>ColumnElement\<close>s
  that \<^verbatim>\<open>length_operator\<close> and \<^verbatim>\<open>get_attribute_filter_expr\<close> build:
  \<^verbatim>\<open>select([func.count('*')]).where(attr).as_scalar()\<close> and \<^verbatim>\<open>attribute.self_group()\<close>.
\<close>

datatype attribute =
    ColumnAttr model string
  | RelationshipAttr model string relationship_property
  | AssociationProxy model string "(attribute \<times> attribute) option"
  | ScalarCount attribute
  | SelfGroup attribute

text \<open>
  \<^verbatim>\<open>class_mapper(model_class)\<close>: the ordered \<^verbatim>\<open>all_orm_descriptors\<close> and the
  \<^verbatim>\<open>primary_key\<close> columns.  A schema gives the mapper of every model class.
\<close>

record mapper =
  all_orm_descriptors :: "(string \<times> attribute) list"
  primary_key :: "column list"

type_synonym schema = "model \<Rightarrow> mapper"

definition getattr :: "schema \<Rightarrow> model \<Rightarrow> string \<Rightarrow> error + attribute" where
  "getattr S M n =
     (case map_of (all_orm_descriptors (S M)) n of
        None \<Rightarrow> Inl AttributeError
      | Some a \<Rightarrow> Inr a)"

fun attr_key :: "attribute \<Rightarrow> string" where
  "attr_key (ColumnAttr M k) = k"
| "attr_key (RelationshipAttr M k p) = k"
| "attr_key (AssociationProxy M k lr) = k"
| "attr_key (ScalarCount a) = ''''"
| "attr_key (SelfGroup a) = attr_key a"

fun attr_str :: "attribute \<Rightarrow> string" where
  "attr_str (ColumnAttr M k) = M @ ''.'' @ k"
| "attr_str (RelationshipAttr M k p) = M @ ''.'' @ k"
| "attr_str (AssociationProxy M k lr) = M @ ''.'' @ k"
| "attr_str (ScalarCount a) = ''count('' @ attr_str a @ '')''"
| "attr_str (SelfGroup a) = ''('' @ attr_str a @ '')''"

section \<open>serialize.py\<close>

subsection \<open>Column mapping and primary key\<close>

fun is_column :: "attribute \<Rightarrow> bool" where
  "is_column (ColumnAttr M k) = True"
| "is_column _ = False"




definition get_pk_column :: "schema \<Rightarrow> model \<Rightarrow> error + column" where
  "get_pk_column S M =
     (case primary_key (S M) of
        [c] \<Rightarrow> Inr c
      | _ \<Rightarrow> Inl (ValueError ''Ambiguous primary key''))"

subsection \<open>Relation metadata\<close>

datatype fkey = FkName string | FkNames "string list"

record rel_meta =
  pk :: string
  fk :: "fkey option"
  fk_pair :: "string option"
  m2m :: bool
  o2o :: bool
  m2o :: bool
  o2m :: bool

fun find_association_proxy_loop ::
  "(string \<times> attribute) list \<Rightarrow> attribute \<Rightarrow> error + string option" where
  "find_association_proxy_loop [] relation =
     Inl (ValueError (''Could not find association proxy for relation '' @ attr_str relation))"
| "find_association_proxy_loop ((k, desc) # ds) relation =
     (case desc of
        AssociationProxy M n lr \<Rightarrow>
          (case lr of
             None \<Rightarrow> Inr None
           | Some (local_attr, remote_attr) \<Rightarrow>
               if local_attr = relation then Inr (Some k)
               else find_association_proxy_loop ds relation)
      | _ \<Rightarrow> find_association_proxy_loop ds relation)"

definition find_association_proxy :: "schema \<Rightarrow> model \<Rightarrow> attribute \<Rightarrow> error + string option" where
  "find_association_proxy S M relation =
     find_association_proxy_loop (all_orm_descriptors (S M)) relation"

text \<open>
  The remote name of the first pair whose local column is named like the foreign key
  (lines 146--152); \<^verbatim>\<open>IndexError\<close> is caught and leaves \<^verbatim>\<open>fk_pair = None\<close>.  When
  \<^verbatim>\<open>foreign_key\<close> is a list no column name equals it.
\<close>

definition get_fk_pair :: "(column option \<times> column) list \<Rightarrow> fkey \<Rightarrow> string option" where
  "get_fk_pair pairs foreign_key =
     (case filter (\<lambda>x. case fst x of
                          None \<Rightarrow> False
                        | Some c \<Rightarrow> FkName (col_name c) = foreign_key) pairs of
        [] \<Rightarrow> None
      | x # _ \<Rightarrow> Some (col_name (snd x)))"

text \<open>
  The metadata that the body of the loop of \<^verbatim>\<open>serialize_relations\<close> computes for the
  relation \<open>name\<close> of \<open>model_class\<close> (lines 127--152 and 173--181).
\<close>

definition relation_meta :: "schema \<Rightarrow> model \<Rightarrow> string \<Rightarrow> error + rel_meta" where
  "relation_meta S model_class n =
     (case getattr S model_class n of
        Inl e \<Rightarrow> Inl e
      | Inr relation_attr \<Rightarrow>
          (case relation_attr of
             RelationshipAttr M k rp \<Rightarrow>
               (case get_pk_column S (mapper_class rp) of
                  Inl e \<Rightarrow> Inl e
                | Inr relation_pk \<Rightarrow>
                    let is_m2m = (direction rp = MANYTOMANY);
                        is_m2o = (direction rp = MANYTOONE);
                        is_o2o = (if \<not> is_m2m then uselist rp = False else False)
                    in if is_m2m then
                         (case find_association_proxy S model_class relation_attr of
                            Inl e \<Rightarrow> Inl e
                          | Inr foreign_key \<Rightarrow>
                              Inr \<lparr>pk = col_key relation_pk, fk = map_option FkName foreign_key,
                                   fk_pair = None, m2m = is_m2m, o2o = is_o2o, m2o = is_m2o,
                                   o2m = (direction rp = ONETOMANY)\<rparr>)
                       else
                         let foreign_keys = map col_key (local_columns rp);
                             foreign_key = (case foreign_keys of
                                              [c] \<Rightarrow> FkName c
                                            | _ \<Rightarrow> FkNames foreign_keys)
                         in Inr \<lparr>pk = col_key relation_pk, fk = Some foreign_key,
                                 fk_pair = get_fk_pair (local_remote_pairs rp) foreign_key,
                                 m2m = is_m2m, o2o = is_o2o, m2o = is_m2o,
                                 o2m = (direction rp = ONETOMANY)\<rparr>)
           | _ \<Rightarrow> Inl AttributeError))"

text \<open>How many of the four flags of a metadata record are true.\<close>

definition flag_count :: "rel_meta \<Rightarrow> nat" where
  "flag_count m = length (filter id [m2m m, o2o m, m2o m, o2m m])"

subsection \<open>serialize\<close>






text \<open>
  A relation record \<^verbatim>\<open>{'_items': ..., '_relations': ..., '_meta': ...}\<close> as
  \<^verbatim>\<open>serialize_relations\<close> builds it; \<^verbatim>\<open>'_meta'\<close> is absent when it was called with
  \<^verbatim>\<open>meta=False\<close>.  The dict of relation records is insertion-ordered.  The type of the
  items is a parameter: \<^verbatim>\<open>get_many_relations\<close> only compares them with \<^verbatim>\<open>==\<close>.
\<close>

datatype 'a relrec =
  RelRec (rr_items: "'a list") (rr_relations: "(string \<times> 'a relrec) list")
    (rr_meta: "rel_meta option")












subsection \<open>get\_many\_relations\<close>

text \<open>\<^verbatim>\<open>for item in xs: if item not in vals: vals.append(item)\<close>.\<close>

fun append_new :: "'a list \<Rightarrow> 'a list \<Rightarrow> 'a list" where
  "append_new vals [] = vals"
| "append_new vals (x # xs) = append_new (if x \<in> set vals then vals else vals @ [x]) xs"

text \<open>\<^verbatim>\<open>vals = many_rels.setdefault(k, [])\<close> followed by that loop.\<close>

definition setdefault_extend ::
  "(string \<times> 'a list) list \<Rightarrow> string \<Rightarrow> 'a list \<Rightarrow> (string \<times> 'a list) list" where
  "setdefault_extend many_rels k xs =
     AList.update k (append_new (case map_of many_rels k of None \<Rightarrow> [] | Some vals \<Rightarrow> vals) xs)
       many_rels"

fun merge_many ::
  "(string \<times> 'a list) list \<Rightarrow> (string \<times> 'a list) list \<Rightarrow> (string \<times> 'a list) list" where
  "merge_many many_rels [] = many_rels"
| "merge_many many_rels ((rk, rv) # new_rel) = merge_many (setdefault_extend many_rels rk rv) new_rel"

fun get_many_relations_loop ::
  "(string \<times> 'a relrec) list \<Rightarrow> (string \<times> 'a list) list \<Rightarrow> error + (string \<times> 'a list) list" where
  "get_many_relations_loop [] many_rels = Inr many_rels"
| "get_many_relations_loop ((k, RelRec its rel mt) # rest) many_rels =
     (case mt of
        None \<Rightarrow> Inl (KeyError ''_meta'')
      | Some meta \<Rightarrow>
          let many1 = (if m2m meta \<or> (m2o meta \<and> \<not> o2o meta)
                       then setdefault_extend many_rels k its else many_rels)
          in if rel \<noteq> [] then
               (case get_many_relations_loop rel [] of
                  Inl e \<Rightarrow> Inl e
                | Inr new_rel \<Rightarrow> get_many_relations_loop rest (merge_many many1 new_rel))
             else get_many_relations_loop rest many1)"

definition get_many_relations ::
  "(string \<times> 'a relrec) list \<Rightarrow> error + (string \<times> 'a list) list" where
  "get_many_relations serialized_relations = get_many_relations_loop serialized_relations []"

subsection \<open>get\_include\_mask\<close>

text \<open>
  An inclusion mask is a dict from relation names to masks.  Nothing reads the order
  of its keys, and Python compares dicts regardless of it: a mask is a finite map.
\<close>

datatype mask = Mask (mask_dict: "(string, mask) fmap")

text \<open>\<^verbatim>\<open>item.split('.', 1)\<close>: one part without a dot, else the text before the first dot
  and the text after it.\<close>

definition split1 :: "string \<Rightarrow> string list" where
  "split1 s =
     (if CHR ''.'' \<in> set s
      then [takeWhile (\<lambda>c. c \<noteq> CHR ''.'') s, tl (dropWhile (\<lambda>c. c \<noteq> CHR ''.'') s)]
      else [s])"

text \<open>
  \<^verbatim>\<open>pre_mask\<close> is a \<^verbatim>\<open>defaultdict(set)\<close>.  A set of strings is kept as the list of its
  members without repetition; Python iterates it in an order of its own, and
  \<open>get_include_mask_set\<close> below shows that the result does not depend on that order.
\<close>

definition set_add :: "'a list \<Rightarrow> 'a \<Rightarrow> 'a list" where
  "set_add vs v = (if v \<in> set vs then vs else vs @ [v])"

definition pre_mask_add ::
  "(string \<times> string list) list \<Rightarrow> string \<Rightarrow> string \<Rightarrow> (string \<times> string list) list" where
  "pre_mask_add pre_mask k v =
     AList.update k (set_add (case map_of pre_mask k of None \<Rightarrow> [] | Some vs \<Rightarrow> vs) v) pre_mask"

text \<open>Lines 332--337: the first loop, on \<^verbatim>\<open>mask\<close> and \<^verbatim>\<open>pre_mask\<close>.\<close>

fun include_loop ::
  "string list \<Rightarrow> (string, mask) fmap \<Rightarrow> (string \<times> string list) list
     \<Rightarrow> (string, mask) fmap \<times> (string \<times> string list) list" where
  "include_loop [] msk pre_mask = (msk, pre_mask)"
| "include_loop (item # include) msk pre_mask =
     (case split1 item of
        [p0, p1] \<Rightarrow> include_loop include msk (pre_mask_add pre_mask p0 p1)
      | _ \<Rightarrow> include_loop include (fmupd item (Mask fmempty) msk) pre_mask)"

definition include_measure :: "string list \<Rightarrow> nat" where
  "include_measure include = Max (insert 0 ((\<lambda>s. Suc (length s)) ` set include))"

text \<open>
  Lines 339--342: every key of \<^verbatim>\<open>pre_mask\<close> gets the mask of its set of suffixes.  The
  recursion ends because every suffix is shorter than the path it was cut from.
\<close>

function get_include_mask :: "string list \<Rightarrow> mask" where
  "get_include_mask include =
     (case include_loop include fmempty [] of
        (msk, pre_mask) \<Rightarrow>
          Mask (fold (\<lambda>kv m. fmupd (fst kv) (get_include_mask (snd kv)) m) pre_mask msk))"
  by pat_completeness auto
termination
proof (relation "measure include_measure")
  show "wf (measure include_measure)" by simp
next
  fix inc :: "string list" and msk pre_mask kv
  assume l: "(msk, pre_mask) = include_loop inc fmempty []"
    and kv: "kv \<in> set pre_mask"
  have upd: "set (AList.update k v al) \<subseteq> insert (k, v) (set al)"
    for k :: string and v :: "string list" and al
    by (induction al) auto
  have inv: "\<forall>(k, vs)\<in>set (snd (include_loop xs m pre)). \<forall>v\<in>set vs.
               (\<exists>item\<in>set xs. length v < length item) \<or> (\<exists>vs0. (k, vs0) \<in> set pre \<and> v \<in> set vs0)"
    for xs m pre
  proof (induction xs arbitrary: m pre)
    case Nil
    show ?case by auto
  next
    case (Cons item xs)
    show ?case
    proof (cases "CHR ''.'' \<in> set item")
      case False
      then show ?thesis using Cons [of "fmupd item (Mask fmempty) m" pre]
        by (fastforce simp: split1_def)
    next
      case True
      define p0 where "p0 = takeWhile (\<lambda>c. c \<noteq> CHR ''.'') item"
      define p1 where "p1 = tl (dropWhile (\<lambda>c. c \<noteq> CHR ''.'') item)"
      have "item = p0 @ dropWhile (\<lambda>c. c \<noteq> CHR ''.'') item"
        by (simp add: p0_def)
      moreover have "dropWhile (\<lambda>c. c \<noteq> CHR ''.'') item \<noteq> []"
        using True by simp
      ultimately have len: "length p1 < length item"
        by (metis p1_def length_append length_tl add_diff_cancel_left' diff_less
            length_greater_0_conv less_add_same_cancel2 less_imp_diff_less trans_less_add2 zero_less_one)
      have step: "include_loop (item # xs) m pre = include_loop xs m (pre_mask_add pre p0 p1)"
        using True by (simp add: split1_def p0_def p1_def)
      have "\<exists>vs0'. (k, vs0') \<in> set pre \<and> v \<in> set vs0' \<or> v = p1"
        if "(k, vs0) \<in> set (pre_mask_add pre p0 p1)" "v \<in> set vs0" for k vs0 v
      proof -
        from that(1) have "(k, vs0) \<in> set pre \<or>
            vs0 = set_add (case map_of pre p0 of None \<Rightarrow> [] | Some vs \<Rightarrow> vs) p1 \<and> k = p0"
          using upd [of p0 "set_add (case map_of pre p0 of None \<Rightarrow> [] | Some vs \<Rightarrow> vs) p1" pre]
          unfolding pre_mask_add_def by blast
        then show ?thesis
        proof
          assume "(k, vs0) \<in> set pre"
          with that(2) show ?thesis by auto
        next
          assume a: "vs0 = set_add (case map_of pre p0 of None \<Rightarrow> [] | Some vs \<Rightarrow> vs) p1 \<and> k = p0"
          show ?thesis
          proof (cases "map_of pre p0")
            case None
            with a that(2) show ?thesis by (auto simp: set_add_def)
          next
            case (Some vs)
            then have "(p0, vs) \<in> set pre" by (rule map_of_SomeD)
            with a that(2) Some show ?thesis by (auto simp: set_add_def split: if_splits)
          qed
        qed
      qed
      with Cons [of m "pre_mask_add pre p0 p1"] len show ?thesis
        unfolding step by (fastforce)
    qed
  qed
  from inv [of inc fmempty "[]"] l kv
  have small: "\<forall>v\<in>set (snd kv). \<exists>item\<in>set inc. length v < length item"
  proof -
    from l kv have "kv \<in> set (snd (include_loop inc fmempty []))"
      by (metis snd_conv)
    with inv [of inc fmempty "[]"] show ?thesis
      by (cases kv) fastforce
  qed
  from l kv have "inc \<noteq> []" by (cases inc) auto
  then obtain item0 where "item0 \<in> set inc" by (cases inc) auto
  then have "0 < include_measure inc"
    by (auto simp: include_measure_def Max_gr_iff)
  moreover have "Suc (length v) \<le> include_measure inc" if "v \<in> set (snd kv)" for v
  proof -
    from small that obtain item where "item \<in> set inc" "length v < length item" by auto
    then have "Suc (length item) \<le> include_measure inc"
      by (auto simp: include_measure_def intro!: Max_ge)
    with \<open>length v < length item\<close> show ?thesis by simp
  qed
  moreover have "Suc (length v) < include_measure inc" if "v \<in> set (snd kv)" for v
  proof -
    from small that obtain item where i: "item \<in> set inc" "length v < length item" by auto
    then have "Suc (length item) \<le> include_measure inc"
      by (auto simp: include_measure_def intro!: Max_ge)
    with i show ?thesis by simp
  qed
  ultimately have "include_measure (snd kv) < include_measure inc"
    unfolding include_measure_def [of "snd kv"] by (subst Max_less_iff) auto
  then show "(snd kv, inc) \<in> measure include_measure" by simp
qed

declare get_include_mask.simps [simp del]

text \<open>
  The words of the resolver's contract: a path with a dot, its first segment, the rest
  after the first dot, and the group of the rests of the paths with a given first segment.
\<close>

definition dotted :: "string \<Rightarrow> bool" where
  "dotted s = (CHR ''.'' \<in> set s)"

definition first_segment :: "string \<Rightarrow> string" where
  "first_segment s = takeWhile (\<lambda>c. c \<noteq> CHR ''.'') s"

definition after_first_dot :: "string \<Rightarrow> string" where
  "after_first_dot s = tl (dropWhile (\<lambda>c. c \<noteq> CHR ''.'') s)"

definition suffix_group :: "string list \<Rightarrow> string \<Rightarrow> string list" where
  "suffix_group paths n =
     map after_first_dot (filter (\<lambda>s. dotted s \<and> first_segment s = n) paths)"

subsection \<open>What the lifter is to collect\<close>

text \<open>
  The relations that the lifter is to collect, in the words of its contract: the nodes
  of the nested record tree, at any depth, whose metadata has \<open>m2m\<close>, or \<open>m2o\<close> and not
  \<open>o2o\<close>; each with its name and its items.  \<open>all_meta\<close>: every node of the tree has
  its \<^verbatim>\<open>'_meta'\<close>.
\<close>

definition is_many :: "rel_meta option \<Rightarrow> bool" where
  "is_many mt = (case mt of None \<Rightarrow> False | Some meta \<Rightarrow> m2m meta \<or> (m2o meta \<and> \<not> o2o meta))"

fun many_nodes :: "(string \<times> 'a relrec) list \<Rightarrow> (string \<times> 'a list) list" where
  "many_nodes [] = []"
| "many_nodes ((k, RelRec its rel mt) # rest) =
     (if is_many mt then [(k, its)] else []) @ many_nodes rel @ many_nodes rest"

fun all_meta :: "(string \<times> 'a relrec) list \<Rightarrow> bool" where
  "all_meta [] = True"
| "all_meta ((k, RelRec its rel mt) # rest) = (mt \<noteq> None \<and> all_meta rel \<and> all_meta rest)"

definition items_of :: "(string \<times> 'a list) list \<Rightarrow> string \<Rightarrow> 'a set" where
  "items_of many n = (case map_of many n of None \<Rightarrow> {} | Some xs \<Rightarrow> set xs)"

definition node_items :: "(string \<times> 'a list) list \<Rightarrow> string \<Rightarrow> 'a set" where
  "node_items nodes n = \<Union> (set ` {its. (n, its) \<in> set nodes})"

definition lists_distinct :: "(string \<times> 'a list) list \<Rightarrow> bool" where
  "lists_distinct many = (\<forall>n xs. map_of many n = Some xs \<longrightarrow> distinct xs)"

section \<open>query.py\<close>

subsection \<open>Criteria documents and SQL expressions\<close>

text \<open>
  A criteria document is parsed JSON.  A \<^verbatim>\<open>dict\<close> is the list of its items in the order
  in which \<^verbatim>\<open>criteria.items()\<close> yields them; a number with a fraction is kept as its
  literal.
\<close>

datatype json =
    JNull
  | JBool bool
  | JInt int
  | JFloat string
  | JStr string
  | JList "json list"
  | JDict "(string \<times> json) list"

text \<open>
  The expression trees that the calls into the SQL toolkit build: a comparison of an
  attribute with an operand (\<^verbatim>\<open>operator.eq(attr, operand)\<close>, \<^verbatim>\<open>attr.in_(operand)\<close>, ...,
  by the name of its SQL operator), \<^verbatim>\<open>attr.any(e)\<close>, the correlated subquery
  \<^verbatim>\<open>Query(target_class).filter(attribute.expression).filter(e).exists()\<close>,
  \<^verbatim>\<open>and_(*es)\<close>, \<^verbatim>\<open>or_(*es)\<close> and \<^verbatim>\<open>not_(e)\<close>.
\<close>

datatype expr =
    BinaryExpr string attribute json
  | AnyExpr attribute expr
  | ExistsExpr model attribute expr
  | AndExpr "expr list"
  | OrExpr "expr list"
  | NotExpr expr

text \<open>
  The three operator tables (lines 14--65).  \<^verbatim>\<open>relationship_operators\<close> and
  \<^verbatim>\<open>association_proxy_operators\<close> have the same keys; their entries call back into the
  compiler and are functions of the recursion below.
\<close>

definition primitive_operators :: "(string \<times> (attribute \<Rightarrow> json \<Rightarrow> expr)) list" where
  "primitive_operators =
     [(''$eq'', BinaryExpr ''=''),
      (''$ne'', BinaryExpr ''!=''),
      (''$lt'', BinaryExpr ''<''),
      (''$lte'', BinaryExpr ''<=''),
      (''$gt'', BinaryExpr ''>''),
      (''$gte'', BinaryExpr ''>=''),
      (''$in'', BinaryExpr ''IN''),
      (''$nin'', \<lambda>attr operand. NotExpr (BinaryExpr ''IN'' attr operand)),
      (''$like'', BinaryExpr ''ILIKE'')]"

definition relationship_operator_keys :: "string list" where
  "relationship_operator_keys = [''$any'', ''$all'', ''$length'']"

definition logical_operator_keys :: "string list" where
  "logical_operator_keys = [''$or'', ''$and'', ''$not'']"

text \<open>\<^verbatim>\<open>"'{}'".format(s)\<close>, \<^verbatim>\<open>s.split('.')\<close> and \<^verbatim>\<open>'.'.join(xs)\<close>.\<close>

definition quoted :: "string \<Rightarrow> string" where
  "quoted s = [CHR 0x27] @ s @ [CHR 0x27]"

fun split_dot :: "string \<Rightarrow> string list" where
  "split_dot [] = [[]]"
| "split_dot (c # cs) =
     (if c = CHR ''.'' then [] # split_dot cs
      else (case split_dot cs of [] \<Rightarrow> [[c]] | w # ws \<Rightarrow> (c # w) # ws))"


text \<open>
  Lines 121--128 and 161--168: an operand that is not a dict stands for
  \<^verbatim>\<open>{'$eq': operand}\<close>, and the segments of the key after the first are folded, last
  segment innermost, into nested one-key documents.
\<close>

fun is_dict :: "json \<Rightarrow> bool" where
  "is_dict (JDict kvs) = True"
| "is_dict _ = False"

definition attr_criteria_of :: "json \<Rightarrow> string list \<Rightarrow> json" where
  "attr_criteria_of operand chain =
     foldr (\<lambda>chain_attr attr_criteria. JDict [(chain_attr, attr_criteria)]) (tl chain)
       (if is_dict operand then operand else JDict [(''$eq'', operand)])"

text \<open>
  \<^verbatim>\<open>fn(item) for item in clauses\<close>: a list yields its elements, a string its characters,
  a dict its keys; anything else is not iterable.  \<open>results\<close> is the first exception
  raised while the calls are made in order, else the list of what they return.
\<close>

fun iterate :: "json \<Rightarrow> error + json list" where
  "iterate (JList xs) = Inr xs"
| "iterate (JStr s) = Inr (map (\<lambda>c. JStr [c]) s)"
| "iterate (JDict kvs) = Inr (map (\<lambda>kv. JStr (fst kv)) kvs)"
| "iterate _ = Inl TypeError"

fun results :: "(error + 'a) list \<Rightarrow> error + 'a list" where
  "results [] = Inr []"
| "results (Inl e # rs) = Inl e"
| "results (Inr x # rs) = (case results rs of Inl e \<Rightarrow> Inl e | Inr xs \<Rightarrow> Inr (x # xs))"

text \<open>\<^verbatim>\<open>isinstance(attribute, ColumnElement)\<close>.\<close>

fun is_column_element :: "attribute \<Rightarrow> bool" where
  "is_column_element (ScalarCount a) = True"
| "is_column_element (SelfGroup a) = True"
| "is_column_element _ = False"

text \<open>
  The size by which the compiler's recursion descends: every call is on a smaller
  document.  A key is counted with four times its length, which bounds what folding
  its segments adds; the operand of a comparison operator is not descended into.
\<close>

fun criteria_size :: "json \<Rightarrow> nat" where
  "criteria_size (JDict kvs) =
     Suc (sum_list (map (\<lambda>kv. if fst kv \<in> fst ` set primitive_operators then 1
                                else 3 + 4 * length (fst kv) + criteria_size (snd kv)) kvs))"
| "criteria_size (JList xs) = 2 + sum_list (map (\<lambda>x. Suc (criteria_size x)) xs)"
| "criteria_size _ = 2"

subsection \<open>The filter compiler\<close>

text \<open>
  \<^verbatim>\<open>get_filter_expr\<close> (lines 141--174) and \<^verbatim>\<open>get_attribute_filter_expr\<close> (lines
  68--138) with the operator entries they call (lines 27--59).  Each \<^verbatim>\<open>for\<close> loop over
  \<^verbatim>\<open>criteria.items()\<close> is a \<open>fold\<close> whose state is \<^verbatim>\<open>exprs\<close> (and \<^verbatim>\<open>attribute\<close>, which the
  loop of \<^verbatim>\<open>get_attribute_filter_expr\<close> reassigns), or the exception raised; the body
  of the loop is the function with suffix \<open>_item\<close>, which returns the \<^verbatim>\<open>expr\<close> of one
  iteration.  \<^verbatim>\<open>criteria.items()\<close> on a value that is not a dict, and \<^verbatim>\<open>.property\<close> on an
  association proxy or a column element, raise \<^verbatim>\<open>AttributeError\<close>.
\<close>

function get_filter_expr :: "schema \<Rightarrow> model \<Rightarrow> json \<Rightarrow> error + expr"
  and get_filter_expr_item :: "schema \<Rightarrow> model \<Rightarrow> string \<Rightarrow> json \<Rightarrow> error + expr"
  and get_attribute_filter_expr ::
    "schema \<Rightarrow> attribute \<Rightarrow> json \<Rightarrow> string option \<Rightarrow> error + expr"
  and get_attribute_filter_expr_item ::
    "schema \<Rightarrow> attribute \<Rightarrow> string \<Rightarrow> json \<Rightarrow> string \<Rightarrow> error + expr \<times> attribute"
  and length_operator :: "schema \<Rightarrow> attribute \<Rightarrow> json \<Rightarrow> error + expr"
  and relationship_operators :: "schema \<Rightarrow> string \<Rightarrow> attribute \<Rightarrow> json \<Rightarrow> error + expr"
  and association_proxy_operators ::
    "schema \<Rightarrow> string \<Rightarrow> attribute \<Rightarrow> json \<Rightarrow> error + expr"
where
  "length_operator S attr criteria =
     (let criteria = (if is_dict criteria then criteria else JDict [(''$eq'', criteria)]) in
      case (case attr of
              AssociationProxy M k lr \<Rightarrow>
                (case lr of
                   None \<Rightarrow> Inl AttributeError
                 | Some (local_attr, remote_attr) \<Rightarrow> Inr local_attr)
            | _ \<Rightarrow> Inr attr) of
        Inl e \<Rightarrow> Inl e
      | Inr attr \<Rightarrow>
          get_attribute_filter_expr S (ScalarCount attr) criteria
            (Some (attr_key attr @ ''$length'')))"
| "relationship_operators S op attr criteria =
     (case attr of
        RelationshipAttr M k p \<Rightarrow>
          if op = ''$any'' then
            (case get_filter_expr S (mapper_class p) criteria of
               Inl e \<Rightarrow> Inl e
             | Inr x \<Rightarrow> Inr (AnyExpr attr x))
          else if op = ''$all'' then
            (case get_filter_expr S (mapper_class p) criteria of
               Inl e \<Rightarrow> Inl e
             | Inr x \<Rightarrow> Inr (NotExpr (AnyExpr attr (NotExpr x))))
          else if op = ''$length'' then length_operator S attr criteria
          else Inl (KeyError op)
      | _ \<Rightarrow> Inl AttributeError)"
| "association_proxy_operators S op attr criteria =
     (if op = ''$any'' then
        (case attr of
           AssociationProxy M k (Some (local_attr, remote_attr)) \<Rightarrow>
             (case get_attribute_filter_expr S remote_attr criteria None of
                Inl e \<Rightarrow> Inl e
              | Inr x \<Rightarrow> Inr (AnyExpr attr x))
         | _ \<Rightarrow> Inl AttributeError)
      else if op = ''$all'' then
        (case attr of
           AssociationProxy M k (Some (local_attr, remote_attr)) \<Rightarrow>
             (case get_attribute_filter_expr S remote_attr criteria None of
                Inl e \<Rightarrow> Inl e
              | Inr x \<Rightarrow> Inr (NotExpr (AnyExpr attr (NotExpr x))))
         | _ \<Rightarrow> Inl AttributeError)
      else if op = ''$length'' then length_operator S attr criteria
      else Inl (KeyError op))"
| "get_attribute_filter_expr S attribute criteria key =
     (let key = (case key of None \<Rightarrow> attr_key attribute | Some k \<Rightarrow> k) in
      case criteria of
        JDict items \<Rightarrow>
          (case fold (\<lambda>(op, operand) state.
                  case state of
                    Inl e \<Rightarrow> Inl e
                  | Inr (exprs, attribute) \<Rightarrow>
                      (case get_attribute_filter_expr_item S attribute op operand key of
                         Inl e \<Rightarrow> Inl e
                       | Inr (expr, attribute) \<Rightarrow> Inr (exprs @ [expr], attribute)))
                items (Inr ([], attribute)) of
             Inl e \<Rightarrow> Inl e
           | Inr (exprs, attribute) \<Rightarrow> Inr (AndExpr exprs))
      | _ \<Rightarrow> Inl AttributeError)"
| "get_attribute_filter_expr_item S attribute op operand key =
     (case map_of primitive_operators op of
        Some operator \<Rightarrow>
          if \<not> (is_column attribute \<or> is_column_element attribute) then
            Inl (ValueError (''Can't use primitive operator '' @ quoted op
                   @ '' on '' @ quoted key @ '': not a column''))
          else
            let attribute = (if is_column_element attribute
                             then SelfGroup attribute else attribute)
            in Inr (operator attribute operand, attribute)
      | None \<Rightarrow>
          (case
             (if op \<in> set relationship_operator_keys then
                (case attribute of
                   AssociationProxy M k lr \<Rightarrow>
                     association_proxy_operators S op attribute operand
                 | RelationshipAttr M k p \<Rightarrow>
                     if direction p \<in> {ONETOMANY, MANYTOMANY} then
                       relationship_operators S op attribute operand
                     else
                       Inl (ValueError (''Can't use '' @ quoted op
                              @ '' operator on '' @ quoted key
                              @ '': not a *-to-many relation nor association proxy''))
                 | ColumnAttr M k \<Rightarrow>
                     Inl (ValueError (''Can't use '' @ quoted op
                            @ '' operator on '' @ quoted key
                            @ '': not a *-to-many relation nor association proxy''))
                 | _ \<Rightarrow> Inl AttributeError)
              else if op \<in> set logical_operator_keys then
                (if op = ''$not'' then
                   (case get_attribute_filter_expr S attribute operand (Some key) of
                      Inl e \<Rightarrow> Inl e
                    | Inr x \<Rightarrow> Inr (NotExpr x))
                 else
                   (case iterate operand of
                      Inl e \<Rightarrow> Inl e
                    | Inr clauses \<Rightarrow>
                        (case results
                                (map (\<lambda>item. get_attribute_filter_expr S attribute
                                                item (Some key)) clauses) of
                           Inl e \<Rightarrow> Inl e
                         | Inr xs \<Rightarrow>
                             Inr (if op = ''$or'' then OrExpr xs else AndExpr xs))))
              else
                (let chain = split_dot op; field = hd chain in
                 case attribute of
                   RelationshipAttr M k p \<Rightarrow>
                     if direction p = MANYTOONE then
                       (case getattr S (mapper_class p) field of
                          Inl e \<Rightarrow> Inl e
                        | Inr attr \<Rightarrow>
                            (case get_attribute_filter_expr S attr
                                    (attr_criteria_of operand chain) (Some field) of
                               Inl e \<Rightarrow> Inl e
                             | Inr x \<Rightarrow>
                                 Inr (ExistsExpr (mapper_class p) attribute x)))
                     else
                       Inl (ValueError (''Can't get '' @ quoted field
                              @ '' subfield from '' @ quoted key
                              @ '': not a many-to-one relation''))
                 | ColumnAttr M k \<Rightarrow>
                     Inl (ValueError (''Can't get '' @ quoted field
                            @ '' subfield from '' @ quoted key
                            @ '': not a many-to-one relation''))
                 | _ \<Rightarrow> Inl AttributeError)) of
             Inl e \<Rightarrow> Inl e
           | Inr expr \<Rightarrow> Inr (expr, attribute)))"
| "get_filter_expr S model criteria =
     (case criteria of
        JDict items \<Rightarrow>
          (case fold (\<lambda>(op, operand) state.
                  case state of
                    Inl e \<Rightarrow> Inl e
                  | Inr exprs \<Rightarrow>
                      (case get_filter_expr_item S model op operand of
                         Inl e \<Rightarrow> Inl e
                       | Inr expr \<Rightarrow> Inr (exprs @ [expr])))
                items (Inr []) of
             Inl e \<Rightarrow> Inl e
           | Inr exprs \<Rightarrow> Inr (AndExpr exprs))
      | _ \<Rightarrow> Inl AttributeError)"
| "get_filter_expr_item S model op operand =
     (if op \<in> fst ` set primitive_operators \<or> op \<in> set relationship_operator_keys
      then Inl (ValueError (''Can't use operator '' @ quoted op @ '' on the top level''))
      else if op \<in> set logical_operator_keys then
        (if op = ''$not'' then
           (case get_filter_expr S model operand of
              Inl e \<Rightarrow> Inl e
            | Inr x \<Rightarrow> Inr (NotExpr x))
         else
           (case iterate operand of
              Inl e \<Rightarrow> Inl e
            | Inr clauses \<Rightarrow>
                (case results (map (\<lambda>item. get_filter_expr S model item) clauses) of
                   Inl e \<Rightarrow> Inl e
                 | Inr xs \<Rightarrow> Inr (if op = ''$or'' then OrExpr xs else AndExpr xs))))
      else
        (let chain = split_dot op in
         case getattr S model (hd chain) of
           Inl e \<Rightarrow> Inl e
         | Inr attr \<Rightarrow>
             get_attribute_filter_expr S attr (attr_criteria_of operand chain)
               (Some (hd chain))))"
  by pat_completeness auto
termination
proof -
  let ?P = "fst ` set primitive_operators"
  let ?cost = "\<lambda>op operand. if op \<in> ?P then 1 else 3 + 4 * length op + criteria_size operand"
  have nondict: "\<not> is_dict v \<Longrightarrow> 2 \<le> criteria_size v" for v
    by (cases v) simp_all
  have item0: "(op, operand) \<in> set items \<Longrightarrow>
      (if op \<in> P then 1 else 3 + 4 * length op + criteria_size operand)
        \<le> sum_list (map (\<lambda>kv. if fst kv \<in> P then 1
                                  else 3 + 4 * length (fst kv) + criteria_size (snd kv)) items)"
    for op operand items and P :: "string set"
    by (induction items) auto
  have item: "(op, operand) \<in> set items \<Longrightarrow> ?cost op operand < criteria_size (JDict items)"
    for op operand items
    using item0 [of op operand items ?P] by simp
  have pos: "kvs \<noteq> [] \<Longrightarrow> 2 \<le> criteria_size (JDict kvs)" for kvs
    by (cases kvs) auto
  have mem: "x \<in> set xs \<Longrightarrow> criteria_size x \<le> criteria_size (JList xs)" for x xs
    by (induction xs) auto
  have it: "iterate v = Inr xs \<Longrightarrow> x \<in> set xs \<Longrightarrow> criteria_size x \<le> criteria_size v" for v xs x
  proof (cases v)
    case (JList ys)
    assume "iterate v = Inr xs" "x \<in> set xs"
    with JList mem [of x ys] show ?thesis by simp
  next
    case (JDict kvs)
    assume a: "iterate v = Inr xs" "x \<in> set xs"
    with JDict have "kvs \<noteq> []" by auto
    from pos [OF this] a JDict show ?thesis by auto
  qed auto
  have segs: "sum_list (map (\<lambda>seg. Suc (length seg)) (split_dot k)) = Suc (length k)" for k
    by (induction k) (auto split: list.splits)
  have ne: "split_dot k \<noteq> []" for k
    by (induction k) (auto split: list.splits)
  have wrap: "criteria_size (foldr (\<lambda>seg acc. JDict [(seg, acc)]) ss base)
      \<le> criteria_size base + 4 * sum_list (map (\<lambda>seg. Suc (length seg)) ss)" for ss base
    by (induction ss) auto
  have tl_le: "sum_list (map (\<lambda>seg. Suc (length seg)) (tl (split_dot k))) \<le> length k" for k
    using segs [of k] ne [of k] by (cases "split_dot k") auto
  have base: "criteria_size (if is_dict v then v else JDict [(''$eq'', v)]) \<le> criteria_size v" for v
    using nondict [of v] by (auto simp: primitive_operators_def)
  have chain: "criteria_size (attr_criteria_of operand (split_dot op))
      \<le> 4 * length op + criteria_size operand" for operand op
    unfolding attr_criteria_of_def
    using wrap [of "tl (split_dot op)" "if is_dict operand then operand else JDict [(''$eq'', operand)]"]
      tl_le [of op] base [of operand]
    by linarith
  show ?thesis
    apply (relation "measure (case_sum
        (case_sum (\<lambda>(S, M, c). criteria_size c)
           (case_sum (\<lambda>(S, M, op, operand). ?cost op operand)
                     (\<lambda>(S, a, c, k). criteria_size c)))
        (case_sum
           (case_sum (\<lambda>(S, a, op, operand, k). ?cost op operand)
                     (\<lambda>(S, a, c). criteria_size c + 1))
           (case_sum (\<lambda>(S, op, a, c). criteria_size c + 2)
                     (\<lambda>(S, op, a, c). criteria_size c + 2))))")
    subgoal by simp
    subgoal for S attr criteria x b
      using base [of criteria] by simp
    subgoal by simp
    subgoal by simp
    subgoal by simp
    subgoal by simp
    subgoal by simp
    subgoal by simp
    subgoal for S attribute criteria key x x7 xa xb y
      using item [of xb y x7] by (auto simp del: criteria_size.simps)
    subgoal by (simp add: map_of_eq_None_iff)
    subgoal by (simp add: map_of_eq_None_iff)
    subgoal by (simp add: map_of_eq_None_iff)
    subgoal for S attribute op operand key b x
      using it [of operand b x] by (simp add: map_of_eq_None_iff)
    subgoal for S attribute op operand
      using chain [of operand op] by (simp add: map_of_eq_None_iff)
    subgoal for S model criteria x7 x xa y
      using item [of xa y x7] by (auto simp del: criteria_size.simps)
    subgoal by simp
    subgoal for S model op operand b x
      using it [of operand b x] by simp
    subgoal for S model op operand
      using chain [of operand op] by simp
    done
qed

declare get_filter_expr.simps [simp del] get_filter_expr_item.simps [simp del]
  get_attribute_filter_expr.simps [simp del] get_attribute_filter_expr_item.simps [simp del]
  length_operator.simps [simp del] relationship_operators.simps [simp del]
  association_proxy_operators.simps [simp del]

subsection \<open>get\_order\_by\<close>










subsection \<open>Paths of relationships\<close>



subsection \<open>What the compiled predicates mean\<close>

text \<open>
  Modelled from the spec: the meaning of an expression tree, which the SQL toolkit and
  the database give and the source does not hold.  A database is a parameter: the rows
  related to a row through a relationship attribute, and the truth of each comparison
  on a row.  \<open>holds db r e\<close> is the truth of \<open>e\<close> on the row \<open>r\<close>: \<^verbatim>\<open>and_\<close>, \<^verbatim>\<open>or_\<close>
  and \<^verbatim>\<open>not_\<close> are conjunction (true when empty), disjunction and negation;
  \<^verbatim>\<open>attr.any(e)\<close> and the correlated existence check are true iff some related row
  satisfies \<open>e\<close>.
\<close>

record 'r database =
  related :: "attribute \<Rightarrow> 'r \<Rightarrow> 'r list"
  compare :: "string \<Rightarrow> attribute \<Rightarrow> json \<Rightarrow> 'r \<Rightarrow> bool"

fun holds :: "'r database \<Rightarrow> 'r \<Rightarrow> expr \<Rightarrow> bool" where
  "holds db r (BinaryExpr oper a v) = compare db oper a v r"
| "holds db r (AnyExpr a e) = list_ex (\<lambda>t. holds db t e) (related db a r)"
| "holds db r (ExistsExpr M a e) = list_ex (\<lambda>t. holds db t e) (related db a r)"
| "holds db r (AndExpr es) = list_all (holds db r) es"
| "holds db r (OrExpr es) = list_ex (holds db r) es"
| "holds db r (NotExpr e) = (\<not> holds db r e)"

text \<open>
  The words of the claims about the filter compiler: an attribute on which the
  relationship operators are compiled (a one-to-many or many-to-many relationship, or
  an association proxy); the subexpression that \<^verbatim>\<open>$any\<close> and \<^verbatim>\<open>$all\<close> wrap for it; a key
  that is an operator; a key that is one name of a field (no dot, not an operator).
\<close>

fun to_many :: "attribute \<Rightarrow> bool" where
  "to_many (RelationshipAttr M k p) = (direction p = ONETOMANY \<or> direction p = MANYTOMANY)"
| "to_many (AssociationProxy M k lr) = (lr \<noteq> None)"
| "to_many _ = False"

fun subexpression :: "schema \<Rightarrow> attribute \<Rightarrow> json \<Rightarrow> error + expr" where
  "subexpression S (RelationshipAttr M k p) criteria = get_filter_expr S (mapper_class p) criteria"
| "subexpression S (AssociationProxy M k (Some (local_attr, remote_attr))) criteria =
     get_attribute_filter_expr S remote_attr criteria None"
| "subexpression S _ criteria = Inl AttributeError"

definition operator_key :: "string \<Rightarrow> bool" where
  "operator_key k = (k \<in> fst ` set primitive_operators \<or> k \<in> set relationship_operator_keys
                     \<or> k \<in> set logical_operator_keys)"

definition field_name :: "string \<Rightarrow> bool" where
  "field_name k = (CHR ''.'' \<notin> set k \<and> \<not> operator_key k)"

text \<open>
  A document that has a comparison operator or a relationship operator among its keys
  at the document level: at its root, in the clause of a \<^verbatim>\<open>$not\<close> at that level, or in a
  clause of the list of an \<^verbatim>\<open>$and\<close> or \<^verbatim>\<open>$or\<close> at that level.
\<close>

fun top_level_operator :: "json \<Rightarrow> bool" where
  "top_level_operator (JDict items) =
     list_ex (\<lambda>(op, operand).
        op \<in> fst ` set primitive_operators \<or> op \<in> set relationship_operator_keys
        \<or> (op = ''$not'' \<and> top_level_operator operand)
        \<or> ((op = ''$and'' \<or> op = ''$or'')
            \<and> (case operand of JList clauses \<Rightarrow> list_ex top_level_operator clauses | _ \<Rightarrow> False)))
       items"
| "top_level_operator _ = False"

section \<open>An example schema\<close>

text \<open>
  \<open>Order{id, customer_id, placed}\<close> many-to-one \<open>Customer{id, name}\<close>, with the reverse
  one-to-many \<open>Customer.orders\<close>, a many-to-many \<open>Order.tags\<close> to \<open>Tag{id, label}\<close> and
  the association proxy \<open>Order.tag_labels\<close> over it.
\<close>

definition order_customer :: attribute where
  "order_customer = RelationshipAttr ''Order'' ''customer''
     \<lparr>direction = MANYTOONE, mapper_class = ''Customer'', uselist = False,
      local_columns = [\<lparr>col_key = ''customer_id'', col_name = ''customer_id''\<rparr>],
      local_remote_pairs = [(Some \<lparr>col_key = ''customer_id'', col_name = ''customer_id''\<rparr>,
                             \<lparr>col_key = ''id'', col_name = ''id''\<rparr>)]\<rparr>"

definition customer_orders :: attribute where
  "customer_orders = RelationshipAttr ''Customer'' ''orders''
     \<lparr>direction = ONETOMANY, mapper_class = ''Order'', uselist = True,
      local_columns = [\<lparr>col_key = ''id'', col_name = ''id''\<rparr>],
      local_remote_pairs = [(Some \<lparr>col_key = ''id'', col_name = ''id''\<rparr>,
                             \<lparr>col_key = ''customer_id'', col_name = ''customer_id''\<rparr>)]\<rparr>"

definition order_tags :: attribute where
  "order_tags = RelationshipAttr ''Order'' ''tags''
     \<lparr>direction = MANYTOMANY, mapper_class = ''Tag'', uselist = True,
      local_columns = [\<lparr>col_key = ''id'', col_name = ''id''\<rparr>],
      local_remote_pairs = [(Some \<lparr>col_key = ''id'', col_name = ''id''\<rparr>,
                             \<lparr>col_key = ''order_id'', col_name = ''order_id''\<rparr>)]\<rparr>"

definition order_tag_labels :: attribute where
  "order_tag_labels =
     AssociationProxy ''Order'' ''tag_labels'' (Some (order_tags, ColumnAttr ''Tag'' ''label''))"

definition shop :: schema where
  "shop M =
     (if M = ''Order'' then
        \<lparr>all_orm_descriptors =
           [(''id'', ColumnAttr ''Order'' ''id''),
            (''customer_id'', ColumnAttr ''Order'' ''customer_id''),
            (''placed'', ColumnAttr ''Order'' ''placed''),
            (''customer'', order_customer),
            (''tags'', order_tags),
            (''tag_labels'', order_tag_labels)],
         primary_key = [\<lparr>col_key = ''id'', col_name = ''id''\<rparr>]\<rparr>
      else if M = ''Customer'' then
        \<lparr>all_orm_descriptors =
           [(''id'', ColumnAttr ''Customer'' ''id''),
            (''name'', ColumnAttr ''Customer'' ''name''),
            (''orders'', customer_orders)],
         primary_key = [\<lparr>col_key = ''id'', col_name = ''id''\<rparr>]\<rparr>
      else if M = ''Tag'' then
        \<lparr>all_orm_descriptors =
           [(''id'', ColumnAttr ''Tag'' ''id''),
            (''label'', ColumnAttr ''Tag'' ''label'')],
         primary_key = [\<lparr>col_key = ''id'', col_name = ''id''\<rparr>]\<rparr>
      else \<lparr>all_orm_descriptors = [], primary_key = []\<rparr>)"




definition ann :: item where
  "ann = fmap_of_list [(''id'', PInt 7), (''name'', PStr ''Ann'')]"


definition customer_meta :: rel_meta where
  "customer_meta = \<lparr>pk = ''id'', fk = Some (FkName ''customer_id''), fk_pair = Some ''id'',
                     m2m = False, o2o = True, m2o = True, o2m = False\<rparr>"

definition orders_meta :: rel_meta where
  "orders_meta = \<lparr>pk = ''id'', fk = Some (FkName ''id''), fk_pair = Some ''customer_id'',
                   m2m = False, o2o = False, m2o = False, o2m = True\<rparr>"

definition tags_meta :: rel_meta where
  "tags_meta = \<lparr>pk = ''id'', fk = Some (FkName ''tag_labels''), fk_pair = None,
                 m2m = True, o2o = False, m2o = False, o2m = False\<rparr>"

definition tag1 :: item where "tag1 = fmap_of_list [(''id'', PInt 1), (''label'', PStr ''new'')]"
definition tag2 :: item where "tag2 = fmap_of_list [(''id'', PInt 2), (''label'', PStr ''big'')]"
definition tag3 :: item where "tag3 = fmap_of_list [(''id'', PInt 3), (''label'', PStr ''far'')]"


definition shop_relations :: "(string \<times> item relrec) list" where
  "shop_relations =
     [(''customer'', RelRec [ann]
         [(''orders'', RelRec []
             [(''tags'', RelRec [tag2, tag3] [] (Some tags_meta))] (Some orders_meta))]
         (Some customer_meta)),
      (''tags'', RelRec [tag1, tag2, tag1] [] (Some tags_meta))]"










text \<open>
  \<open>Comment{id, post_id}\<close> many-to-one \<open>Post{id, author_id}\<close> many-to-one
  \<open>Author{id, name}\<close>.
\<close>

definition comment_post :: attribute where
  "comment_post = RelationshipAttr ''Comment'' ''post''
     \<lparr>direction = MANYTOONE, mapper_class = ''Post'', uselist = False,
      local_columns = [\<lparr>col_key = ''post_id'', col_name = ''post_id''\<rparr>],
      local_remote_pairs = [(Some \<lparr>col_key = ''post_id'', col_name = ''post_id''\<rparr>,
                             \<lparr>col_key = ''id'', col_name = ''id''\<rparr>)]\<rparr>"

definition post_author :: attribute where
  "post_author = RelationshipAttr ''Post'' ''author''
     \<lparr>direction = MANYTOONE, mapper_class = ''Author'', uselist = False,
      local_columns = [\<lparr>col_key = ''author_id'', col_name = ''author_id''\<rparr>],
      local_remote_pairs = [(Some \<lparr>col_key = ''author_id'', col_name = ''author_id''\<rparr>,
                             \<lparr>col_key = ''id'', col_name = ''id''\<rparr>)]\<rparr>"

definition forum :: schema where
  "forum M =
     (if M = ''Comment'' then
        \<lparr>all_orm_descriptors =
           [(''id'', ColumnAttr ''Comment'' ''id''),
            (''post_id'', ColumnAttr ''Comment'' ''post_id''),
            (''post'', comment_post)],
         primary_key = [\<lparr>col_key = ''id'', col_name = ''id''\<rparr>]\<rparr>
      else if M = ''Post'' then
        \<lparr>all_orm_descriptors =
           [(''id'', ColumnAttr ''Post'' ''id''),
            (''author_id'', ColumnAttr ''Post'' ''author_id''),
            (''author'', post_author)],
         primary_key = [\<lparr>col_key = ''id'', col_name = ''id''\<rparr>]\<rparr>
      else if M = ''Author'' then
        \<lparr>all_orm_descriptors =
           [(''id'', ColumnAttr ''Author'' ''id''),
            (''name'', ColumnAttr ''Author'' ''name'')],
         primary_key = [\<lparr>col_key = ''id'', col_name = ''id''\<rparr>]\<rparr>
      else \<lparr>all_orm_descriptors = [], primary_key = []\<rparr>)"

section \<open>Properties\<close>

subsection \<open>Relation metadata\<close>

text \<open>
  C5.  For every relationship for which the serializer computes metadata, exactly one of
  the cardinality flags \<open>m2m\<close>, \<open>m2o\<close>, \<open>o2m\<close> is true; \<open>o2o\<close> is true exactly for a
  relationship that is not many-to-many and is single-valued (\<^verbatim>\<open>uselist is False\<close>), in
  which case it is true in addition to that one flag (two of the four flags are true)
  and \<open>m2m\<close> is false; otherwise exactly one of the four flags is true.
\<close>

theorem relation_meta_flags:
  assumes "relation_meta S M n = Inr meta"
  shows "length (filter id [m2m meta, m2o meta, o2m meta]) = 1
       \<and> (o2o meta \<longrightarrow> \<not> m2m meta \<and> flag_count meta = 2)
       \<and> (\<not> o2o meta \<longrightarrow> flag_count meta = 1)
       \<and> (\<exists>M' k rp. getattr S M n = Inr (RelationshipAttr M' k rp)
            \<and> o2o meta = (direction rp \<noteq> MANYTOMANY \<and> \<not> uselist rp))"
proof -
  from assms obtain M' k rp where a: "getattr S M n = Inr (RelationshipAttr M' k rp)"
    by (auto simp: relation_meta_def split: sum.splits attribute.splits)
  from assms a have flags:
    "m2m meta = (direction rp = MANYTOMANY)"
    "m2o meta = (direction rp = MANYTOONE)"
    "o2m meta = (direction rp = ONETOMANY)"
    "o2o meta = (direction rp \<noteq> MANYTOMANY \<and> \<not> uselist rp)"
    by (auto simp: relation_meta_def Let_def split: sum.splits if_splits)
  show ?thesis
    using a flags by (cases "direction rp") (auto simp: flag_count_def)
qed

theorem relation_meta_flags_witness:
  "relation_meta shop ''Order'' ''customer'' = Inr customer_meta
   \<and> length (filter id [m2m customer_meta, m2o customer_meta, o2m customer_meta]) = 1
   \<and> o2o customer_meta \<and> \<not> m2m customer_meta \<and> flag_count customer_meta = 2"
proof -
  have h: "relation_meta shop ''Order'' ''customer'' = Inr customer_meta"
    by (simp add: relation_meta_def shop_def getattr_def order_customer_def get_pk_column_def
        get_fk_pair_def customer_meta_def)
  from relation_meta_flags [OF h] h show ?thesis
    by (simp add: customer_meta_def)
qed

subsection \<open>Flattening a one-to-one relation\<close>









subsection \<open>The many-relation lifter\<close>

lemma set_append_new: "set (append_new vals xs) = set vals \<union> set xs"
  by (induction xs arbitrary: vals) auto

lemma distinct_append_new: "distinct vals \<Longrightarrow> distinct (append_new vals xs)"
  by (induction xs arbitrary: vals) auto

lemma map_of_setdefault_extend:
  "map_of (setdefault_extend many k xs) =
     (map_of many)(k \<mapsto> append_new (case map_of many k of None \<Rightarrow> [] | Some vals \<Rightarrow> vals) xs)"
  by (simp add: setdefault_extend_def update_conv')

lemma keys_setdefault_extend:
  "fst ` set (setdefault_extend many k xs) = insert k (fst ` set many)"
  by (simp add: setdefault_extend_def dom_update)

lemma distinct_setdefault_extend:
  "distinct (map fst many) \<Longrightarrow> distinct (map fst (setdefault_extend many k xs))"
  by (simp add: setdefault_extend_def distinct_update)

lemma items_of_setdefault_extend:
  "items_of (setdefault_extend many k xs) n =
     (if n = k then items_of many k \<union> set xs else items_of many n)"
  by (auto simp: items_of_def map_of_setdefault_extend set_append_new split: option.splits)

lemma lists_distinct_setdefault_extend:
  "lists_distinct many \<Longrightarrow> lists_distinct (setdefault_extend many k xs)"
  by (auto simp: lists_distinct_def map_of_setdefault_extend distinct_append_new
           split: option.splits if_splits)

lemma merge_many_props:
  "fst ` set (merge_many many new) = fst ` set many \<union> fst ` set new"
  "distinct (map fst many) \<Longrightarrow> distinct (map fst (merge_many many new))"
  "lists_distinct many \<Longrightarrow> lists_distinct (merge_many many new)"
  by (induction many new rule: merge_many.induct)
     (auto simp: keys_setdefault_extend distinct_setdefault_extend lists_distinct_setdefault_extend)

lemma items_of_merge_many:
  "distinct (map fst new) \<Longrightarrow>
   items_of (merge_many many new) n = items_of many n \<union> items_of new n"
proof (induction many new rule: merge_many.induct)
  case (1 many)
  then show ?case by (simp add: items_of_def)
next
  case (2 many rk rv new)
  from "2.prems" have "map_of new rk = None"
    by (simp add: map_of_eq_None_iff)
  then have "items_of new rk = {}"
    by (simp add: items_of_def)
  moreover have "items_of ((rk, rv) # new) n = (if n = rk then set rv else items_of new n)"
    by (simp add: items_of_def)
  ultimately show ?case
    using 2 by (auto simp: items_of_setdefault_extend)
qed

lemma node_items_simps:
  "node_items [] n = {}"
  "node_items ((k, its) # nodes) n = (if n = k then set its else {}) \<union> node_items nodes n"
  "node_items (xs @ ys) n = node_items xs n \<union> node_items ys n"
  by (auto simp: node_items_def)

lemma loop_props:
  "get_many_relations_loop t many = Inr res \<Longrightarrow>
     fst ` set res = fst ` set many \<union> fst ` set (many_nodes t)
   \<and> (distinct (map fst many) \<longrightarrow> distinct (map fst res))
   \<and> (lists_distinct many \<longrightarrow> lists_distinct res)
   \<and> (\<forall>n. items_of res n = items_of many n \<union> node_items (many_nodes t) n)"
proof (induction t many arbitrary: res rule: get_many_relations_loop.induct)
  case (1 many)
  then show ?case by (simp add: node_items_simps)
next
  case (2 k its rel mt rest many)
  from "2.prems" obtain meta where mt: "mt = Some meta"
    by (cases mt) auto
  define many1 where "many1 = (if m2m meta \<or> (m2o meta \<and> \<not> o2o meta)
                       then setdefault_extend many k its else many)"
  have m1: "fst ` set many1 = fst ` set many \<union> fst ` set (if is_many mt then [(k, its)] else [])"
    "distinct (map fst many) \<longrightarrow> distinct (map fst many1)"
    "lists_distinct many \<longrightarrow> lists_distinct many1"
    "\<And>n. items_of many1 n = items_of many n \<union> node_items (if is_many mt then [(k, its)] else []) n"
    by (auto simp: many1_def mt is_many_def keys_setdefault_extend distinct_setdefault_extend
         lists_distinct_setdefault_extend items_of_setdefault_extend node_items_simps)
  show ?case
  proof (cases "rel = []")
    case True
    with "2.prems" mt have r: "get_many_relations_loop rest many1 = Inr res"
      by (simp add: many1_def Let_def)
    from "2.IH"(3) [OF mt many1_def [symmetric, unfolded many1_def] _ ] True r
    have "fst ` set res = fst ` set many1 \<union> fst ` set (many_nodes rest)
   \<and> (distinct (map fst many1) \<longrightarrow> distinct (map fst res))
   \<and> (lists_distinct many1 \<longrightarrow> lists_distinct res)
   \<and> (\<forall>n. items_of res n = items_of many1 n \<union> node_items (many_nodes rest) n)"
      by (simp add: many1_def)
    with m1 True show ?thesis
      by (auto simp: node_items_simps)
  next
    case False
    with "2.prems" mt obtain new_rel where
      nr: "get_many_relations_loop rel [] = Inr new_rel"
      and r: "get_many_relations_loop rest (merge_many many1 new_rel) = Inr res"
      by (auto simp: many1_def Let_def split: sum.splits)
    from "2.IH"(1) [OF mt many1_def [symmetric, unfolded many1_def] False nr]
    have n1: "fst ` set new_rel = fst ` set (many_nodes rel)"
      "distinct (map fst new_rel)"
      "\<And>n. items_of new_rel n = node_items (many_nodes rel) n"
      by (auto simp: items_of_def)
    from "2.IH"(2) [OF mt many1_def [symmetric, unfolded many1_def] False nr] r
    have "fst ` set res = fst ` set (merge_many many1 new_rel) \<union> fst ` set (many_nodes rest)
   \<and> (distinct (map fst (merge_many many1 new_rel)) \<longrightarrow> distinct (map fst res))
   \<and> (lists_distinct (merge_many many1 new_rel) \<longrightarrow> lists_distinct res)
   \<and> (\<forall>n. items_of res n = items_of (merge_many many1 new_rel) n \<union> node_items (many_nodes rest) n)"
      by (simp add: many1_def)
    with m1 n1 show ?thesis
      by (auto simp: node_items_simps merge_many_props items_of_merge_many)
  qed
qed

lemma loop_total:
  "all_meta t \<Longrightarrow> \<exists>res. get_many_relations_loop t many = Inr res"
proof (induction t many rule: get_many_relations_loop.induct)
  case (1 many)
  then show ?case by simp
next
  case (2 k its rel mt rest many)
  from "2.prems" obtain meta where mt: "mt = Some meta" and ar: "all_meta rel" and ars: "all_meta rest"
    by auto
  define many1 where "many1 = (if m2m meta \<or> (m2o meta \<and> \<not> o2o meta)
                       then setdefault_extend many k its else many)"
  show ?case
  proof (cases "rel = []")
    case True
    from "2.IH"(3) [OF mt many1_def [symmetric, unfolded many1_def] _ ars] True
    show ?thesis by (simp add: mt Let_def)
  next
    case False
    from "2.IH"(1) [OF mt many1_def [symmetric, unfolded many1_def] False ar]
    obtain new_rel where nr: "get_many_relations_loop rel [] = Inr new_rel" by auto
    from "2.IH"(2) [OF mt many1_def [symmetric, unfolded many1_def] False nr ars] nr False
    show ?thesis by (simp add: mt Let_def)
  qed
qed

lemma loop_fails:
  "\<not> all_meta t \<Longrightarrow> \<exists>e. get_many_relations_loop t many = Inl e"
proof (induction t many rule: get_many_relations_loop.induct)
  case (1 many)
  then show ?case by simp
next
  case (2 k its rel mt rest many)
  show ?case
  proof (cases mt)
    case None
    then show ?thesis by simp
  next
    case (Some meta)
    define many1 where "many1 = (if m2m meta \<or> (m2o meta \<and> \<not> o2o meta)
                       then setdefault_extend many k its else many)"
    show ?thesis
    proof (cases "rel = []")
      case True
      with "2.prems" Some have "\<not> all_meta rest" by simp
      from "2.IH"(3) [OF Some many1_def [symmetric, unfolded many1_def] _ this] True
      show ?thesis by (simp add: Some Let_def)
    next
      case False
      show ?thesis
      proof (cases "get_many_relations_loop rel []")
        case (Inl e)
        with False show ?thesis by (simp add: Some Let_def)
      next
        case (Inr new_rel)
        have "all_meta rel"
        proof (rule ccontr)
          assume "\<not> all_meta rel"
          from "2.IH"(1) [OF Some many1_def [symmetric, unfolded many1_def] False this] Inr
          show False by simp
        qed
        with "2.prems" Some have "\<not> all_meta rest" by simp
        from "2.IH"(2) [OF Some many1_def [symmetric, unfolded many1_def] False Inr this] Inr False
        show ?thesis by (simp add: Some Let_def)
      qed
    qed
  qed
qed

text \<open>
  C6.  On a nested relation record tree in which every record has its metadata, the
  lifter returns a mapping whose keys are the names of the relations, at any depth,
  whose metadata has \<open>m2m\<close>, or \<open>m2o\<close> and not \<open>o2o\<close>; the list under a name holds
  exactly the items of those relations of that name, and no two of its members are
  equal.  (Without \<^verbatim>\<open>'_meta'\<close> on some record the lifter raises \<^verbatim>\<open>KeyError\<close>.)
\<close>

theorem get_many_relations_lifts:
  assumes "all_meta t"
  shows "\<exists>res. get_many_relations t = Inr res
           \<and> distinct (map fst res)
           \<and> fst ` set res = fst ` set (many_nodes t)
           \<and> (\<forall>n xs. (n, xs) \<in> set res \<longrightarrow>
                 distinct xs
               \<and> set xs = {x. \<exists>its. (n, its) \<in> set (many_nodes t) \<and> x \<in> set its})"
proof -
  from loop_total [OF assms, of "[]"] obtain res where r: "get_many_relations_loop t [] = Inr res"
    by auto
  from loop_props [OF r] have p: "fst ` set res = fst ` set (many_nodes t)"
    "distinct (map fst res)" "lists_distinct res"
    "\<And>n. items_of res n = node_items (many_nodes t) n"
    by (auto simp: lists_distinct_def items_of_def)
  have "distinct xs \<and> set xs = {x. \<exists>its. (n, its) \<in> set (many_nodes t) \<and> x \<in> set its}"
    if "(n, xs) \<in> set res" for n xs
  proof -
    from that p(2) have m: "map_of res n = Some xs" by simp
    with p(3) have "distinct xs" by (auto simp: lists_distinct_def)
    moreover from m p(4) [of n] have "set xs = node_items (many_nodes t) n"
      by (simp add: items_of_def)
    ultimately show ?thesis by (auto simp: node_items_def)
  qed
  with r p(1,2) show ?thesis by (auto simp: get_many_relations_def)
qed

lemma tags_distinct: "tag1 \<noteq> tag2" "tag1 \<noteq> tag3" "tag2 \<noteq> tag3"
proof -
  have "fmlookup tag1 ''id'' = Some (PInt 1)" "fmlookup tag2 ''id'' = Some (PInt 2)"
    "fmlookup tag3 ''id'' = Some (PInt 3)"
    by (simp_all add: tag1_def tag2_def tag3_def)
  then show "tag1 \<noteq> tag2" "tag1 \<noteq> tag3" "tag2 \<noteq> tag3" by auto
qed

theorem get_many_relations_lifts_witness:
  "all_meta shop_relations
   \<and> get_many_relations shop_relations = Inr [(''tags'', [tag2, tag3, tag1])]
   \<and> distinct [tag2, tag3, tag1]
   \<and> set [tag2, tag3, tag1]
       = {x. \<exists>its. (''tags'', its) \<in> set (many_nodes shop_relations) \<and> x \<in> set its}"
proof -
  have a: "all_meta shop_relations" by (simp add: shop_relations_def)
  have r: "get_many_relations shop_relations = Inr [(''tags'', [tag2, tag3, tag1])]"
    using tags_distinct
    by (simp add: get_many_relations_def shop_relations_def setdefault_extend_def
          customer_meta_def orders_meta_def tags_meta_def)
  from get_many_relations_lifts [OF a] r
  have "distinct [tag2, tag3, tag1] \<and> set [tag2, tag3, tag1]
       = {x. \<exists>its. (''tags'', its) \<in> set (many_nodes shop_relations) \<and> x \<in> set its}"
    by simp
  with a r show ?thesis by simp
qed

subsection \<open>The inclusion mask resolver\<close>

lemma split1_cases:
  "split1 s = (if dotted s then [first_segment s, after_first_dot s] else [s])"
  by (simp add: split1_def dotted_def first_segment_def after_first_dot_def)

lemma include_loop_step:
  "include_loop (item # xs) m pre =
     (if dotted item
      then include_loop xs m (pre_mask_add pre (first_segment item) (after_first_dot item))
      else include_loop xs (fmupd item (Mask fmempty) m) pre)"
  by (simp add: split1_cases)

lemma include_loop_mask:
  "fmlookup (fst (include_loop xs m pre)) n =
     (if n \<in> set xs \<and> \<not> dotted n then Some (Mask fmempty) else fmlookup m n)"
proof (induction xs arbitrary: m pre)
  case Nil
  show ?case by simp
next
  case (Cons item xs)
  show ?case
    unfolding include_loop_step using Cons by auto
qed

lemma map_of_pre_mask_add:
  "map_of (pre_mask_add pre k v) =
     (map_of pre)(k \<mapsto> set_add (case map_of pre k of None \<Rightarrow> [] | Some vs \<Rightarrow> vs) v)"
  by (simp add: pre_mask_add_def update_conv')

lemma distinct_pre_mask_add:
  "distinct (map fst pre) \<Longrightarrow> distinct (map fst (pre_mask_add pre k v))"
  by (simp add: pre_mask_add_def distinct_update)

lemma include_loop_distinct:
  "distinct (map fst pre) \<Longrightarrow> distinct (map fst (snd (include_loop xs m pre)))"
proof (induction xs arbitrary: m pre)
  case Nil
  then show ?case by simp
next
  case (Cons item xs)
  then show ?case
    unfolding include_loop_step by (auto simp: distinct_pre_mask_add)
qed

lemma include_loop_pre_mask:
  "(case map_of (snd (include_loop xs m pre)) n of None \<Rightarrow> {} | Some vs \<Rightarrow> set vs)
     = (case map_of pre n of None \<Rightarrow> {} | Some vs \<Rightarrow> set vs) \<union> set (suffix_group xs n)
   \<and> (map_of (snd (include_loop xs m pre)) n = None
        \<longleftrightarrow> map_of pre n = None \<and> suffix_group xs n = [])"
proof (induction xs arbitrary: m pre)
  case Nil
  show ?case by (simp add: suffix_group_def)
next
  case (Cons item xs)
  show ?case
  proof (cases "dotted item")
    case False
    with Cons [of "fmupd item (Mask fmempty) m" pre] show ?thesis
      unfolding include_loop_step by (simp add: suffix_group_def)
  next
    case True
    with Cons [of m "pre_mask_add pre (first_segment item) (after_first_dot item)"]
    show ?thesis
      unfolding include_loop_step
      by (auto simp: suffix_group_def map_of_pre_mask_add set_add_def split: option.splits if_splits)
  qed
qed

lemma fold_fmupd_lookup:
  "distinct (map fst pre) \<Longrightarrow>
   fmlookup (fold (\<lambda>kv m. fmupd (fst kv) (f (snd kv)) m) pre m0) n =
     (case map_of pre n of None \<Rightarrow> fmlookup m0 n | Some vs \<Rightarrow> Some (f vs))"
proof (induction pre arbitrary: m0)
  case Nil
  show ?case by simp
next
  case (Cons kv pre)
  then have "map_of pre (fst kv) = None"
    by (simp add: map_of_eq_None_iff)
  with Cons show ?case
    by (cases kv) (auto split: option.splits)
qed

lemma get_include_mask_lookup:
  "fmlookup (mask_dict (get_include_mask xs)) n =
     (case map_of (snd (include_loop xs fmempty [])) n of
        Some vs \<Rightarrow> Some (get_include_mask vs)
      | None \<Rightarrow> if n \<in> set xs \<and> \<not> dotted n then Some (Mask fmempty) else None)"
proof -
  obtain msk pre where l: "include_loop xs fmempty [] = (msk, pre)"
    by (cases "include_loop xs fmempty []")
  have d: "distinct (map fst pre)"
    using include_loop_distinct [of "[]" xs fmempty] l by simp
  have m: "fmlookup msk n = (if n \<in> set xs \<and> \<not> dotted n then Some (Mask fmempty) else None)"
    using include_loop_mask [of xs fmempty "[]" n] l by simp
  show ?thesis
    by (subst get_include_mask.simps) (simp add: l fold_fmupd_lookup [OF d] m split: option.splits)
qed

lemma pre_mask_group:
  "map_of (snd (include_loop xs fmempty [])) n = Some vs \<Longrightarrow> set vs = set (suffix_group xs n)"
  "map_of (snd (include_loop xs fmempty [])) n = None \<longleftrightarrow> suffix_group xs n = []"
  using include_loop_pre_mask [of xs fmempty "[]" n] by auto

lemma suffix_group_cong: "set xs = set ys \<Longrightarrow> set (suffix_group xs n) = set (suffix_group ys n)"
  by (simp add: suffix_group_def)

lemma get_include_mask_set:
  "set xs = set ys \<Longrightarrow> get_include_mask xs = get_include_mask ys"
proof (induction xs arbitrary: ys rule: get_include_mask.induct)
  case (1 inc)
  have "fmlookup (mask_dict (get_include_mask inc)) n = fmlookup (mask_dict (get_include_mask ys)) n"
    for n
  proof (cases "map_of (snd (include_loop inc fmempty [])) n")
    case None
    then have "suffix_group inc n = []" by (simp add: pre_mask_group)
    with suffix_group_cong [OF "1.prems", of n] have "suffix_group ys n = []" by simp
    then have "map_of (snd (include_loop ys fmempty [])) n = None" by (simp add: pre_mask_group)
    with None "1.prems" show ?thesis by (simp add: get_include_mask_lookup)
  next
    case (Some vs)
    then have vs: "set vs = set (suffix_group inc n)" by (rule pre_mask_group)
    from Some have "suffix_group inc n \<noteq> []" using pre_mask_group(2) [of inc n] by simp
    with suffix_group_cong [OF "1.prems", of n] have "suffix_group ys n \<noteq> []" by auto
    then obtain ws where ws: "map_of (snd (include_loop ys fmempty [])) n = Some ws"
      using pre_mask_group(2) [of ys n] by auto
    then have "set ws = set (suffix_group ys n)" by (rule pre_mask_group)
    with vs suffix_group_cong [OF "1.prems", of n] have eq: "set vs = set ws" by simp
    from Some have mem: "(n, vs) \<in> set (snd (include_loop inc fmempty []))"
      by (rule map_of_SomeD)
    have "get_include_mask vs = get_include_mask ws"
      using "1.IH" [OF prod.collapse mem, of ws] eq by simp
    with Some ws show ?thesis by (simp add: get_include_mask_lookup)
  qed
  then have "mask_dict (get_include_mask inc) = mask_dict (get_include_mask ys)"
    by (rule fmap_ext)
  then show ?case by (rule mask.expand)
qed

lemma get_include_mask_nonempty:
  assumes "xs \<noteq> []"
  shows "get_include_mask xs \<noteq> Mask fmempty"
proof -
  from assms obtain x where x: "x \<in> set xs" by (cases xs) auto
  have "fmlookup (mask_dict (get_include_mask xs)) (first_segment x) \<noteq> None"
  proof (cases "dotted x")
    case True
    with x have "after_first_dot x \<in> set (suffix_group xs (first_segment x))"
      by (auto simp: suffix_group_def)
    then have "suffix_group xs (first_segment x) \<noteq> []" by auto
    then have "map_of (snd (include_loop xs fmempty [])) (first_segment x) \<noteq> None"
      by (simp add: pre_mask_group)
    then show ?thesis by (auto simp: get_include_mask_lookup)
  next
    case False
    then have "first_segment x = x"
      by (auto simp: first_segment_def dotted_def takeWhile_eq_all_conv)
    with False x show ?thesis
      by (auto simp: get_include_mask_lookup split: option.splits)
  qed
  then show ?thesis by auto
qed

lemma get_include_mask_bare:
  "\<forall>x\<in>set xs. \<not> dotted x \<Longrightarrow>
   fmlookup (mask_dict (get_include_mask xs)) n = (if n \<in> set xs then Some (Mask fmempty) else None)"
proof -
  assume a: "\<forall>x\<in>set xs. \<not> dotted x"
  then have "suffix_group xs n = []" by (auto simp: suffix_group_def filter_empty_conv)
  then have "map_of (snd (include_loop xs fmempty [])) n = None" by (simp add: pre_mask_group)
  with a show ?thesis by (auto simp: get_include_mask_lookup)
qed

text \<open>
  C9.  The resolver splits every path on its first dot and groups the paths by their
  first segment.  Under a name \<open>n\<close> the resulting mask holds: the resolver's own result
  on the group of the suffixes (the texts after the first dot) of the dotted paths with
  first segment \<open>n\<close>, when there is such a path; else the empty mask, when \<open>n\<close> is itself
  a path of the list without a dot; else nothing.  So the list
  \<^verbatim>\<open>['a', 'b.c', 'b.d']\<close> resolves to \<^verbatim>\<open>{'a': {}, 'b': {'c': {}, 'd': {}}}\<close>.
\<close>

theorem get_include_mask_resolves:
  "fmlookup (mask_dict (get_include_mask paths)) n =
     (if suffix_group paths n \<noteq> [] then Some (get_include_mask (suffix_group paths n))
      else if n \<in> set paths \<and> \<not> dotted n then Some (Mask fmempty)
      else None)
   \<and> get_include_mask [''a'', ''b.c'', ''b.d'']
       = Mask (fmap_of_list
           [(''a'', Mask fmempty),
            (''b'', Mask (fmap_of_list [(''c'', Mask fmempty), (''d'', Mask fmempty)]))])"
proof
  show "fmlookup (mask_dict (get_include_mask paths)) n =
     (if suffix_group paths n \<noteq> [] then Some (get_include_mask (suffix_group paths n))
      else if n \<in> set paths \<and> \<not> dotted n then Some (Mask fmempty)
      else None)"
  proof (cases "map_of (snd (include_loop paths fmempty [])) n")
    case None
    then have "suffix_group paths n = []" by (simp add: pre_mask_group)
    with None show ?thesis by (simp add: get_include_mask_lookup)
  next
    case (Some vs)
    then have "set vs = set (suffix_group paths n)" by (rule pre_mask_group)
    then have eq: "get_include_mask vs = get_include_mask (suffix_group paths n)"
      by (rule get_include_mask_set)
    from Some have "suffix_group paths n \<noteq> []" using pre_mask_group(2) [of paths n] by simp
    with Some eq show ?thesis by (simp add: get_include_mask_lookup)
  qed
next
  have cd: "get_include_mask [''c'', ''d'']
              = Mask (fmap_of_list [(''c'', Mask fmempty), (''d'', Mask fmempty)])"
  proof (rule mask.expand, rule fmap_ext)
    fix n
    show "fmlookup (mask_dict (get_include_mask [''c'', ''d''])) n
        = fmlookup (mask_dict (Mask (fmap_of_list [(''c'', Mask fmempty), (''d'', Mask fmempty)]))) n"
      by (subst get_include_mask_bare) (auto simp: dotted_def)
  qed
  have l: "include_loop [''a'', ''b.c'', ''b.d''] fmempty []
             = (fmupd ''a'' (Mask fmempty) fmempty, [(''b'', [''c'', ''d''])])"
    by (simp add: split1_def pre_mask_add_def set_add_def)
  show "get_include_mask [''a'', ''b.c'', ''b.d'']
       = Mask (fmap_of_list
           [(''a'', Mask fmempty),
            (''b'', Mask (fmap_of_list [(''c'', Mask fmempty), (''d'', Mask fmempty)]))])"
    apply (subst get_include_mask.simps)
    apply (subst l)
    apply (simp add: cd)
    apply (rule fmap_ext)
    apply auto
    done
qed

text \<open>
  C10.  When the list holds a bare name \<open>b\<close> and also a dotted path \<open>p\<close> whose first
  segment is \<open>b\<close>, the mask under \<open>b\<close> is the resolver's result on the suffixes of the
  dotted paths that start with \<open>b\<close>: it holds the rest of \<open>p\<close> and is not the empty leaf
  \<^verbatim>\<open>{}\<close> that the bare name alone would give.
\<close>

theorem get_include_mask_overwrites_leaf:
  assumes "b \<in> set paths" "\<not> dotted b"
    and "p \<in> set paths" "dotted p" "first_segment p = b"
  shows "\<exists>vs. fmlookup (mask_dict (get_include_mask paths)) b = Some (get_include_mask vs)
            \<and> set vs = set (suffix_group paths b)
            \<and> after_first_dot p \<in> set vs
            \<and> get_include_mask vs \<noteq> Mask fmempty"
proof -
  from assms(3-5) have in_group: "after_first_dot p \<in> set (suffix_group paths b)"
    by (auto simp: suffix_group_def)
  then have "suffix_group paths b \<noteq> []" by auto
  then obtain vs where vs: "map_of (snd (include_loop paths fmempty [])) b = Some vs"
    using pre_mask_group(2) [of paths b] by auto
  then have s: "set vs = set (suffix_group paths b)" by (rule pre_mask_group)
  with in_group have "vs \<noteq> []" by auto
  then have "get_include_mask vs \<noteq> Mask fmempty" by (rule get_include_mask_nonempty)
  with vs s in_group show ?thesis
    by (auto simp: get_include_mask_lookup)
qed

theorem get_include_mask_overwrites_leaf_witness:
  "''b'' \<in> set [''b'', ''b.c''] \<and> \<not> dotted ''b'' \<and> dotted ''b.c'' \<and> first_segment ''b.c'' = ''b''
   \<and> fmlookup (mask_dict (get_include_mask [''b'', ''b.c''])) ''b''
        = Some (Mask (fmap_of_list [(''c'', Mask fmempty)]))
   \<and> get_include_mask [''b'', ''b.c'']
        = Mask (fmap_of_list [(''b'', Mask (fmap_of_list [(''c'', Mask fmempty)]))])"
proof -
  have h: "''b'' \<in> set [''b'', ''b.c'']" "\<not> dotted ''b''" "''b.c'' \<in> set [''b'', ''b.c'']"
    "dotted ''b.c''" "first_segment ''b.c'' = ''b''"
    by (simp_all add: dotted_def first_segment_def)
  have c: "get_include_mask [''c''] = Mask (fmap_of_list [(''c'', Mask fmempty)])"
  proof (rule mask.expand, rule fmap_ext)
    fix n
    show "fmlookup (mask_dict (get_include_mask [''c''])) n
        = fmlookup (mask_dict (Mask (fmap_of_list [(''c'', Mask fmempty)]))) n"
      by (subst get_include_mask_bare) (auto simp: dotted_def)
  qed
  from get_include_mask_overwrites_leaf [OF h] obtain vs where
    vs: "fmlookup (mask_dict (get_include_mask [''b'', ''b.c''])) ''b'' = Some (get_include_mask vs)"
      "set vs = set (suffix_group [''b'', ''b.c''] ''b'')"
    by blast
  have "set vs = set [''c'']"
    using vs(2) by (simp add: suffix_group_def dotted_def first_segment_def after_first_dot_def)
  then have "get_include_mask vs = get_include_mask [''c'']" by (rule get_include_mask_set)
  with vs(1) c have b: "fmlookup (mask_dict (get_include_mask [''b'', ''b.c''])) ''b''
        = Some (Mask (fmap_of_list [(''c'', Mask fmempty)]))"
    by simp
  have "mask_dict (get_include_mask [''b'', ''b.c''])
          = fmap_of_list [(''b'', Mask (fmap_of_list [(''c'', Mask fmempty)]))]"
  proof (rule fmap_ext)
    fix n
    show "fmlookup (mask_dict (get_include_mask [''b'', ''b.c''])) n
        = fmlookup (fmap_of_list [(''b'', Mask (fmap_of_list [(''c'', Mask fmempty)]))]) n"
    proof (cases "n = ''b''")
      case True
      with b show ?thesis by simp
    next
      case False
      then have "suffix_group [''b'', ''b.c''] n = []"
        by (auto simp: suffix_group_def first_segment_def)
      then have "map_of (snd (include_loop [''b'', ''b.c''] fmempty [])) n = None"
        using pre_mask_group(2) [of "[''b'', ''b.c'']" n] by blast
      with False show ?thesis
        by (auto simp: get_include_mask_lookup dotted_def)
    qed
  qed
  then have "get_include_mask [''b'', ''b.c'']
        = Mask (fmap_of_list [(''b'', Mask (fmap_of_list [(''c'', Mask fmempty)]))])"
    by (cases "get_include_mask [''b'', ''b.c'']") simp
  with h b show ?thesis by simp
qed

subsection \<open>The ordering compiler\<close>

lemma split_dot_nonempty: "split_dot k \<noteq> []"
  by (induction k) (auto split: list.splits)







subsection \<open>The filter compiler\<close>

lemma fold_results:
  "fold (\<lambda>(op, operand) state.
           case state of
             Inl e \<Rightarrow> Inl e
           | Inr exprs \<Rightarrow> (case f op operand of Inl e \<Rightarrow> Inl e | Inr expr \<Rightarrow> Inr (exprs @ [expr])))
        items st
     = (case st of
          Inl e \<Rightarrow> Inl e
        | Inr acc \<Rightarrow>
            (case results (map (\<lambda>(op, operand). f op operand) items) of
               Inl e \<Rightarrow> Inl e
             | Inr xs \<Rightarrow> Inr (acc @ xs)))"
proof (induction items arbitrary: st)
  case Nil
  show ?case by (simp split: sum.splits)
next
  case (Cons kv items)
  show ?case
    by (cases kv; cases st; cases "f (fst kv) (snd kv)") (simp_all add: Cons split: sum.splits)
qed

lemma get_filter_expr_dict:
  "get_filter_expr S M (JDict items) =
     (case results (map (\<lambda>(op, operand). get_filter_expr_item S M op operand) items) of
        Inl e \<Rightarrow> Inl e
      | Inr exprs \<Rightarrow> Inr (AndExpr exprs))"
  by (subst get_filter_expr.simps) (simp add: fold_results split: sum.splits)

lemma get_filter_expr_not_dict:
  "\<not> is_dict criteria \<Longrightarrow> get_filter_expr S M criteria = Inl AttributeError"
  by (subst get_filter_expr.simps) (cases criteria; simp)

lemma get_attribute_filter_expr_empty:
  "get_attribute_filter_expr S attribute (JDict []) key = Inr (AndExpr [])"
  by (subst get_attribute_filter_expr.simps) (simp add: Let_def)

lemma get_attribute_filter_expr_single:
  "get_attribute_filter_expr S attribute (JDict [(op, operand)]) key =
     (case get_attribute_filter_expr_item S attribute op operand
             (case key of None \<Rightarrow> attr_key attribute | Some k \<Rightarrow> k) of
        Inl e \<Rightarrow> Inl e
      | Inr (expr, attribute') \<Rightarrow> Inr (AndExpr [expr]))"
  by (subst get_attribute_filter_expr.simps) (simp add: Let_def split: sum.splits prod.splits)

lemma all_item:
  assumes "to_many attribute"
  shows "get_attribute_filter_expr_item S attribute ''$all'' criteria key =
           (case subexpression S attribute criteria of
              Inl e \<Rightarrow> Inl e
            | Inr sub \<Rightarrow> Inr (NotExpr (AnyExpr attribute (NotExpr sub)), attribute))"
proof (cases attribute)
  case (RelationshipAttr M k p)
  with assms show ?thesis
    by (subst get_attribute_filter_expr_item.simps)
       (auto simp: primitive_operators_def relationship_operator_keys_def
          relationship_operators.simps split: sum.splits)
next
  case (AssociationProxy M k lr)
  with assms obtain l r where "lr = Some (l, r)" by (cases lr) auto
  with AssociationProxy show ?thesis
    by (subst get_attribute_filter_expr_item.simps)
       (auto simp: primitive_operators_def relationship_operator_keys_def
          association_proxy_operators.simps split: sum.splits)
qed (use assms in auto)

text \<open>
  C1.  On a to-many relationship attribute (or an association proxy), the criteria
  \<^verbatim>\<open>{'$all': c}\<close> compile to the conjunction of the one expression
  \<^verbatim>\<open>not_(attr.any(not_(sub)))\<close>, where \<open>sub\<close> is what \<open>c\<close> compiles to on the related class
  (the compilation fails as that of \<open>c\<close> does).  The empty document compiles to the
  empty conjunction, and \<^verbatim>\<open>{'$all': {}}\<close> to a predicate that holds on every row of
  every database, whatever its related rows are.
\<close>

theorem all_is_not_any_not:
  assumes "to_many attribute"
  shows "get_attribute_filter_expr S attribute (JDict [(''$all'', criteria)]) key
           = (case subexpression S attribute criteria of
                Inl e \<Rightarrow> Inl e
              | Inr sub \<Rightarrow> Inr (AndExpr [NotExpr (AnyExpr attribute (NotExpr sub))]))
       \<and> subexpression S attribute (JDict []) = Inr (AndExpr [])
       \<and> (\<exists>p. get_attribute_filter_expr S attribute (JDict [(''$all'', JDict [])]) key = Inr p
              \<and> (\<forall>(db :: 'r database) r. holds db r p))"
proof -
  have 1: "get_attribute_filter_expr S attribute (JDict [(''$all'', c)]) key
           = (case subexpression S attribute c of
                Inl e \<Rightarrow> Inl e
              | Inr sub \<Rightarrow> Inr (AndExpr [NotExpr (AnyExpr attribute (NotExpr sub))]))" for c
    by (simp add: get_attribute_filter_expr_single all_item [OF assms] split: sum.splits)
  have 2: "subexpression S attribute (JDict []) = Inr (AndExpr [])"
    using assms
    by (cases "(S, attribute, JDict [])" rule: subexpression.cases)
       (auto simp: get_filter_expr_dict get_attribute_filter_expr_empty)
  have 3: "holds db r (AndExpr [NotExpr (AnyExpr attribute (NotExpr (AndExpr [])))])"
    for db :: "'r database" and r
    by (simp add: list_ex_iff)
  from 1 2 3 show ?thesis by simp
qed

theorem all_is_not_any_not_witness:
  "to_many customer_orders
   \<and> get_filter_expr shop ''Customer'' (JDict [(''orders'', JDict [(''$all'', JDict [])])])
       = Inr (AndExpr [AndExpr [NotExpr (AnyExpr customer_orders (NotExpr (AndExpr [])))]])
   \<and> holds \<lparr>related = (\<lambda>a r. []), compare = (\<lambda>oper a v r. False)\<rparr> (0::nat)
        (AndExpr [AndExpr [NotExpr (AnyExpr customer_orders (NotExpr (AndExpr [])))]])"
proof -
  have t: "to_many customer_orders" by (simp add: customer_orders_def)
  have "get_filter_expr_item shop ''Customer'' ''orders'' (JDict [(''$all'', JDict [])])
          = get_attribute_filter_expr shop customer_orders (JDict [(''$all'', JDict [])])
              (Some ''orders'')"
    by (subst get_filter_expr_item.simps)
       (simp add: primitive_operators_def relationship_operator_keys_def logical_operator_keys_def
          shop_def getattr_def attr_criteria_of_def)
  moreover from all_is_not_any_not [where ?'r = nat, OF t, of shop "JDict []" "Some ''orders''"]
  have "get_attribute_filter_expr shop customer_orders (JDict [(''$all'', JDict [])]) (Some ''orders'')
          = Inr (AndExpr [NotExpr (AnyExpr customer_orders (NotExpr (AndExpr [])))])"
    by simp
  ultimately show ?thesis
    using t by (simp add: get_filter_expr_dict)
qed



lemma results_error:
  "\<exists>x\<in>set xs. \<exists>e. f x = Inl e \<Longrightarrow> \<exists>e. results (map f xs) = Inl e"
proof (induction xs)
  case Nil
  then show ?case by simp
next
  case (Cons x xs)
  then show ?case
    by (cases "f x") (auto split: sum.splits)
qed

lemma results_ok:
  "results (map f xs) = Inr ys \<Longrightarrow> x \<in> set xs \<Longrightarrow> \<exists>y. f x = Inr y"
proof (induction xs arbitrary: ys)
  case Nil
  then show ?case by simp
next
  case (Cons z xs)
  then show ?case
    by (cases "f z") (auto split: sum.splits)
qed

lemma top_level_item:
  "op \<in> fst ` set primitive_operators \<or> op \<in> set relationship_operator_keys \<Longrightarrow>
   get_filter_expr_item S M op operand
     = Inl (ValueError (''Can't use operator '' @ quoted op @ '' on the top level''))"
  by (subst get_filter_expr_item.simps) simp

lemma top_level_operator_fails:
  "top_level_operator criteria \<Longrightarrow> \<exists>e. get_filter_expr S M criteria = Inl e"
proof (induction criteria rule: top_level_operator.induct)
  case (1 items)
  from "1.prems" obtain op operand where
    mem: "(op, operand) \<in> set items"
    and bad: "op \<in> fst ` set primitive_operators \<or> op \<in> set relationship_operator_keys
        \<or> (op = ''$not'' \<and> top_level_operator operand)
        \<or> ((op = ''$and'' \<or> op = ''$or'')
            \<and> (case operand of JList clauses \<Rightarrow> list_ex top_level_operator clauses | _ \<Rightarrow> False))"
    by (auto simp: list_ex_iff)
  have "\<exists>e. get_filter_expr_item S M op operand = Inl e"
  proof -
    consider
      (operator) "op \<in> fst ` set primitive_operators \<or> op \<in> set relationship_operator_keys"
      | (neg) "\<not> (op \<in> fst ` set primitive_operators \<or> op \<in> set relationship_operator_keys)"
          "op = ''$not''" "top_level_operator operand"
      | (clauses) clauses where
          "\<not> (op \<in> fst ` set primitive_operators \<or> op \<in> set relationship_operator_keys)"
          "op = ''$and'' \<or> op = ''$or''" "operand = JList clauses"
          "list_ex top_level_operator clauses"
      using bad by (cases operand) auto
    then show ?thesis
    proof cases
      case operator
      then show ?thesis by (simp add: top_level_item)
    next
      case neg
      from "1.IH"(1) [OF mem refl neg(3)] obtain e where "get_filter_expr S M operand = Inl e"
        by blast
      with neg(1,2) show ?thesis
        by (subst get_filter_expr_item.simps) (simp add: logical_operator_keys_def)
    next
      case clauses
      from clauses(4) obtain x where x: "x \<in> set clauses" "top_level_operator x"
        by (auto simp: list_ex_iff)
      from "1.IH"(2) [OF mem refl clauses(3) x] x(1)
      have "\<exists>x\<in>set clauses. \<exists>e. get_filter_expr S M x = Inl e" by blast
      then obtain e where "results (map (get_filter_expr S M) clauses) = Inl e"
        using results_error [of clauses "get_filter_expr S M"] by blast
      with clauses(1,2,3) show ?thesis
        by (subst get_filter_expr_item.simps) (auto simp: logical_operator_keys_def)
    qed
  qed
  with mem have "\<exists>x\<in>set items. \<exists>e. (\<lambda>(op, operand). get_filter_expr_item S M op operand) x = Inl e"
    by (intro bexI [of _ "(op, operand)"]) auto
  from results_error [OF this] show ?case
    by (auto simp: get_filter_expr_dict)
qed simp_all

text \<open>
  C7.  Compiling a document that has a comparison or relationship operator among its
  keys at the document level (the root, or a clause of \<^verbatim>\<open>$and\<close>, \<^verbatim>\<open>$or\<close>, \<^verbatim>\<open>$not\<close> there)
  raises an exception; when such a key is the first key of the root it is the
  \<^verbatim>\<open>ValueError\<close> that names it.  Every key of a document that compiles is a logical
  operator, or its first segment is an attribute of the model.
\<close>

theorem top_level_operators_fail:
  "(top_level_operator criteria \<longrightarrow> (\<exists>e. get_filter_expr S M criteria = Inl e))
   \<and> (op \<in> fst ` set primitive_operators \<or> op \<in> set relationship_operator_keys
        \<longrightarrow> get_filter_expr S M (JDict ((op, operand) # rest))
              = Inl (ValueError (''Can't use operator '' @ quoted op @ '' on the top level'')))
   \<and> (get_filter_expr S M (JDict items) = Inr p \<and> (k, v) \<in> set items
        \<longrightarrow> \<not> (k \<in> fst ` set primitive_operators \<or> k \<in> set relationship_operator_keys)
            \<and> (k \<in> set logical_operator_keys
                \<or> (\<exists>a. getattr S M (hd (split_dot k)) = Inr a)))"
proof -
  have 1: "\<exists>e. get_filter_expr S M criteria = Inl e" if "top_level_operator criteria"
    using that by (rule top_level_operator_fails)
  have 2: "get_filter_expr S M (JDict ((op, operand) # rest))
              = Inl (ValueError (''Can't use operator '' @ quoted op @ '' on the top level''))"
    if "op \<in> fst ` set primitive_operators \<or> op \<in> set relationship_operator_keys"
    using that by (simp add: get_filter_expr_dict top_level_item)
  have 3: "\<not> (k \<in> fst ` set primitive_operators \<or> k \<in> set relationship_operator_keys)
            \<and> (k \<in> set logical_operator_keys
                \<or> (\<exists>a. getattr S M (hd (split_dot k)) = Inr a))"
    if a: "get_filter_expr S M (JDict items) = Inr p \<and> (k, v) \<in> set items"
  proof -
    from a obtain ys where
      "results (map (\<lambda>(op, operand). get_filter_expr_item S M op operand) items) = Inr ys"
      by (auto simp: get_filter_expr_dict split: sum.splits)
    from results_ok [OF this, of "(k, v)"] a obtain y where y: "get_filter_expr_item S M k v = Inr y"
      by auto
    then have n: "\<not> (k \<in> fst ` set primitive_operators \<or> k \<in> set relationship_operator_keys)"
      using top_level_item [of k S M v] by auto
    moreover have "k \<in> set logical_operator_keys \<or> (\<exists>a. getattr S M (hd (split_dot k)) = Inr a)"
    proof (cases "k \<in> set logical_operator_keys")
      case False
      with y n show ?thesis
        by (subst (asm) get_filter_expr_item.simps) (auto simp: Let_def split: sum.splits)
    qed simp
    ultimately show ?thesis by simp
  qed
  from 1 2 3 show ?thesis by blast
qed

theorem top_level_operators_fail_witness:
  "top_level_operator
     (JDict [(''$and'', JList [JDict [(''id'', JInt 1)],
                               JDict [(''$not'', JDict [(''$in'', JList [])])]])])
   \<and> (\<exists>e. get_filter_expr shop ''Order''
          (JDict [(''$and'', JList [JDict [(''id'', JInt 1)],
                                    JDict [(''$not'', JDict [(''$in'', JList [])])]])]) = Inl e)
   \<and> get_filter_expr shop ''Order'' (JDict [(''$any'', JDict [])])
       = Inl (ValueError (''Can't use operator '' @ quoted ''$any'' @ '' on the top level''))"
proof -
  have t: "top_level_operator
     (JDict [(''$and'', JList [JDict [(''id'', JInt 1)],
                               JDict [(''$not'', JDict [(''$in'', JList [])])]])])"
    by (simp add: primitive_operators_def relationship_operator_keys_def)
  have r: "''$any'' \<in> fst ` set primitive_operators \<or> ''$any'' \<in> set relationship_operator_keys"
    by (simp add: relationship_operator_keys_def)
  from top_level_operators_fail [of _ shop "''Order''" "''$any''" "JDict []" "[]"] t r
  show ?thesis by blast
qed

lemma split_dot_segment:
  "CHR ''.'' \<notin> set a \<Longrightarrow> split_dot a = [a]"
  "CHR ''.'' \<notin> set a \<Longrightarrow> split_dot (a @ CHR ''.'' # s) = a # split_dot s"
  by (induction a) (auto split: list.splits)

lemma operator_key_no_dot: "operator_key k \<Longrightarrow> CHR ''.'' \<notin> set k"
  by (auto simp: operator_key_def primitive_operators_def relationship_operator_keys_def
      logical_operator_keys_def)

lemma wrap_idem:
  "(if is_dict (if is_dict V then V else JDict [(''$eq'', V)])
    then (if is_dict V then V else JDict [(''$eq'', V)])
    else JDict [(''$eq'', (if is_dict V then V else JDict [(''$eq'', V)]))])
   = (if is_dict V then V else JDict [(''$eq'', V)])"
  by simp

lemma filter_item_field:
  assumes "\<not> operator_key k"
  shows "get_filter_expr_item S M k X =
           (case getattr S M (hd (split_dot k)) of
              Inl e \<Rightarrow> Inl e
            | Inr attr \<Rightarrow>
                get_attribute_filter_expr S attr (attr_criteria_of X (split_dot k))
                  (Some (hd (split_dot k))))"
  using assms
  by (subst get_filter_expr_item.simps) (simp add: operator_key_def Let_def)

lemma attribute_item_field:
  assumes "\<not> operator_key k"
  shows "get_attribute_filter_expr_item S attribute k X key =
           (case
              (case attribute of
                 RelationshipAttr M n p \<Rightarrow>
                   if direction p = MANYTOONE then
                     (case getattr S (mapper_class p) (hd (split_dot k)) of
                        Inl e \<Rightarrow> Inl e
                      | Inr attr \<Rightarrow>
                          (case get_attribute_filter_expr S attr
                                  (attr_criteria_of X (split_dot k)) (Some (hd (split_dot k))) of
                             Inl e \<Rightarrow> Inl e
                           | Inr x \<Rightarrow> Inr (ExistsExpr (mapper_class p) attribute x)))
                   else
                     Inl (ValueError (''Can't get '' @ quoted (hd (split_dot k))
                            @ '' subfield from '' @ quoted key
                            @ '': not a many-to-one relation''))
               | ColumnAttr M n \<Rightarrow>
                   Inl (ValueError (''Can't get '' @ quoted (hd (split_dot k))
                          @ '' subfield from '' @ quoted key
                          @ '': not a many-to-one relation''))
               | _ \<Rightarrow> Inl AttributeError) of
              Inl e \<Rightarrow> Inl e
            | Inr expr \<Rightarrow> Inr (expr, attribute))"
proof -
  from assms have "map_of primitive_operators k = None"
    by (simp add: operator_key_def map_of_eq_None_iff)
  with assms show ?thesis
    by (subst get_attribute_filter_expr_item.simps) (simp add: operator_key_def Let_def)
qed

lemma attr_criteria_of_wrap:
  "attr_criteria_of (if is_dict V then V else JDict [(''$eq'', V)]) chain = attr_criteria_of V chain"
  by (simp add: attr_criteria_of_def)

lemma attribute_item_wrap:
  assumes "\<not> operator_key c"
  shows "get_attribute_filter_expr_item S attribute c (if is_dict V then V else JDict [(''$eq'', V)]) key
           = get_attribute_filter_expr_item S attribute c V key"
  by (simp only: attribute_item_field [OF assms] attr_criteria_of_wrap)

lemma attr_criteria_of_dict:
  "attr_criteria_of (JDict kvs) [k] = JDict kvs"
  by (simp add: attr_criteria_of_def)

lemma attr_criteria_of_three:
  "attr_criteria_of V [a, b, c] = JDict [(b, JDict [(c, if is_dict V then V else JDict [(''$eq'', V)])])]"
  by (simp add: attr_criteria_of_def)

lemma attribute_single_wrap:
  assumes "\<not> operator_key c"
  shows "get_attribute_filter_expr S attribute
           (JDict [(c, if is_dict V then V else JDict [(''$eq'', V)])]) key
         = get_attribute_filter_expr S attribute (JDict [(c, V)]) key"
  by (simp only: get_attribute_filter_expr_single attribute_item_wrap [OF assms])

lemma attribute_item_cong:
  assumes "\<not> operator_key k"
    and "\<And>attr. get_attribute_filter_expr S attr (attr_criteria_of X (split_dot k))
                   (Some (hd (split_dot k)))
               = get_attribute_filter_expr S attr (attr_criteria_of Y (split_dot k))
                   (Some (hd (split_dot k)))"
  shows "get_attribute_filter_expr_item S attribute k X key
           = get_attribute_filter_expr_item S attribute k Y key"
  by (simp only: attribute_item_field [OF assms(1)] assms(2))

lemma attribute_nested_wrap:
  assumes "field_name b" "\<not> operator_key c"
  shows "get_attribute_filter_expr S attribute
           (JDict [(b, JDict [(c, if is_dict V then V else JDict [(''$eq'', V)])])]) key
         = get_attribute_filter_expr S attribute (JDict [(b, JDict [(c, V)])]) key"
proof -
  from assms(1) have b: "\<not> operator_key b" "split_dot b = [b]"
    by (simp_all add: field_name_def split_dot_segment)
  have "get_attribute_filter_expr_item S attribute b
          (JDict [(c, if is_dict V then V else JDict [(''$eq'', V)])]) k'
        = get_attribute_filter_expr_item S attribute b (JDict [(c, V)]) k'" for k'
    by (rule attribute_item_cong [OF b(1)])
       (simp only: b(2) attr_criteria_of_dict attribute_single_wrap [OF assms(2)])
  then show ?thesis
    by (simp only: get_attribute_filter_expr_single)
qed

lemma dotted_chain:
  assumes "field_name a" "field_name b" "field_name c"
  shows "split_dot (a @ ''.'' @ b @ ''.'' @ c) = [a, b, c]"
    and "\<not> operator_key (a @ ''.'' @ b @ ''.'' @ c)"
proof -
  from assms show "split_dot (a @ ''.'' @ b @ ''.'' @ c) = [a, b, c]"
    by (simp add: field_name_def split_dot_segment)
  show "\<not> operator_key (a @ ''.'' @ b @ ''.'' @ c)"
    using operator_key_no_dot [of "a @ ''.'' @ b @ ''.'' @ c"] by auto
qed

lemma column_eq:
  "get_attribute_filter_expr S (ColumnAttr Mc kc) (JDict [(''$eq'', V)]) key
     = Inr (AndExpr [BinaryExpr ''='' (ColumnAttr Mc kc) V])"
  by (subst get_attribute_filter_expr.simps, subst get_attribute_filter_expr_item.simps)
     (simp add: primitive_operators_def Let_def)

lemma many_to_one_exists:
  assumes "\<not> operator_key k" "split_dot k = [k]" "direction p = MANYTOONE"
    and "getattr S (mapper_class p) k = Inr attr"
  shows "get_attribute_filter_expr S (RelationshipAttr M n p) (JDict [(k, JDict kvs)]) key
           = (case get_attribute_filter_expr S attr (JDict kvs) (Some k) of
                Inl e \<Rightarrow> Inl e
              | Inr x \<Rightarrow> Inr (AndExpr [ExistsExpr (mapper_class p) (RelationshipAttr M n p) x]))"
  using assms(3,4)
  by (simp add: get_attribute_filter_expr_single attribute_item_field [OF assms(1)] assms(2)
        attr_criteria_of_dict split: sum.splits)

text \<open>
  C2.  Let \<open>a\<close>, \<open>b\<close>, \<open>c\<close> be names of fields (without a dot, not operators).  Compiling
  \<^verbatim>\<open>{'a.b.c': V}\<close> gives what compiling \<^verbatim>\<open>{'a': {'b': {'c': V}}}\<close> gives, the same
  expression or the same exception: the segments after the first are folded, last
  innermost, into nested one-key documents.  When \<open>a\<close> and \<open>b\<close> name many-to-one
  relationships, \<open>c\<close> a column of the class they lead to, and \<open>V\<close> is not a dict, the
  result is one correlated existence check for each of the two relationships, around
  the comparison of the column with \<open>V\<close>.
\<close>

theorem dotted_is_nested:
  assumes "field_name a" "field_name b" "field_name c"
  shows "get_filter_expr S M (JDict [(a @ ''.'' @ b @ ''.'' @ c, V)])
           = get_filter_expr S M (JDict [(a, JDict [(b, JDict [(c, V)])])])
       \<and> attr_criteria_of V (split_dot (a @ ''.'' @ b @ ''.'' @ c))
           = JDict [(b, JDict [(c, if is_dict V then V else JDict [(''$eq'', V)])])]
       \<and> (getattr S M a = Inr (RelationshipAttr Ma ka pa) \<and> direction pa = MANYTOONE
            \<and> getattr S (mapper_class pa) b = Inr (RelationshipAttr Mb kb pb)
            \<and> direction pb = MANYTOONE
            \<and> getattr S (mapper_class pb) c = Inr (ColumnAttr Mc kc) \<and> \<not> is_dict V
          \<longrightarrow> get_filter_expr S M (JDict [(a @ ''.'' @ b @ ''.'' @ c, V)])
                = Inr (AndExpr [AndExpr
                    [ExistsExpr (mapper_class pa) (RelationshipAttr Ma ka pa)
                       (AndExpr [ExistsExpr (mapper_class pb) (RelationshipAttr Mb kb pb)
                          (AndExpr [BinaryExpr ''='' (ColumnAttr Mc kc) V])])]]))"
proof -
  define path where "path = a @ ''.'' @ b @ ''.'' @ c"
  have chain: "split_dot path = [a, b, c]" "\<not> operator_key path"
    unfolding path_def by (rule dotted_chain [OF assms])+
  from assms have f: "\<not> operator_key a" "split_dot a = [a]" "\<not> operator_key b" "split_dot b = [b]"
    "\<not> operator_key c" "split_dot c = [c]"
    by (simp_all add: field_name_def split_dot_segment)
  have dotted: "get_filter_expr_item S M path V
      = (case getattr S M a of
           Inl e \<Rightarrow> Inl e
         | Inr attr \<Rightarrow>
             get_attribute_filter_expr S attr
               (JDict [(b, JDict [(c, if is_dict V then V else JDict [(''$eq'', V)])])]) (Some a))"
    by (simp only: filter_item_field [OF chain(2)] chain(1) attr_criteria_of_three list.sel)
  have nested: "get_filter_expr_item S M a (JDict [(b, JDict [(c, V)])])
      = (case getattr S M a of
           Inl e \<Rightarrow> Inl e
         | Inr attr \<Rightarrow> get_attribute_filter_expr S attr (JDict [(b, JDict [(c, V)])]) (Some a))"
    by (simp only: filter_item_field [OF f(1)] f(2) attr_criteria_of_dict list.sel)
  have "get_filter_expr_item S M path V = get_filter_expr_item S M a (JDict [(b, JDict [(c, V)])])"
    by (simp only: dotted nested attribute_nested_wrap [OF assms(2) f(5)])
  then have 1: "get_filter_expr S M (JDict [(path, V)])
           = get_filter_expr S M (JDict [(a, JDict [(b, JDict [(c, V)])])])"
    by (simp only: get_filter_expr_dict list.map prod.case)
  have 2: "attr_criteria_of V (split_dot path)
           = JDict [(b, JDict [(c, if is_dict V then V else JDict [(''$eq'', V)])])]"
    by (simp only: chain(1) attr_criteria_of_three)
  have 3: "get_filter_expr S M (JDict [(path, V)])
                = Inr (AndExpr [AndExpr
                    [ExistsExpr (mapper_class pa) (RelationshipAttr Ma ka pa)
                       (AndExpr [ExistsExpr (mapper_class pb) (RelationshipAttr Mb kb pb)
                          (AndExpr [BinaryExpr ''='' (ColumnAttr Mc kc) V])])]])"
    if h: "getattr S M a = Inr (RelationshipAttr Ma ka pa) \<and> direction pa = MANYTOONE
            \<and> getattr S (mapper_class pa) b = Inr (RelationshipAttr Mb kb pb)
            \<and> direction pb = MANYTOONE
            \<and> getattr S (mapper_class pb) c = Inr (ColumnAttr Mc kc) \<and> \<not> is_dict V"
  proof -
    from h have inner: "get_attribute_filter_expr S (RelationshipAttr Mb kb pb)
        (JDict [(c, JDict [(''$eq'', V)])]) (Some b)
        = Inr (AndExpr [ExistsExpr (mapper_class pb) (RelationshipAttr Mb kb pb)
             (AndExpr [BinaryExpr ''='' (ColumnAttr Mc kc) V])])"
      by (simp add: many_to_one_exists [OF f(5,6)] column_eq)
    from h have outer: "get_attribute_filter_expr S (RelationshipAttr Ma ka pa)
        (JDict [(b, JDict [(c, JDict [(''$eq'', V)])])]) (Some a)
        = Inr (AndExpr [ExistsExpr (mapper_class pa) (RelationshipAttr Ma ka pa)
             (AndExpr [ExistsExpr (mapper_class pb) (RelationshipAttr Mb kb pb)
                (AndExpr [BinaryExpr ''='' (ColumnAttr Mc kc) V])])])"
      by (simp add: many_to_one_exists [OF f(3,4)] inner)
    from h outer have "get_filter_expr_item S M path V
        = Inr (AndExpr [ExistsExpr (mapper_class pa) (RelationshipAttr Ma ka pa)
             (AndExpr [ExistsExpr (mapper_class pb) (RelationshipAttr Mb kb pb)
                (AndExpr [BinaryExpr ''='' (ColumnAttr Mc kc) V])])])"
      by (simp add: dotted)
    then show ?thesis
      by (simp add: get_filter_expr_dict)
  qed
  from 1 2 3 show ?thesis
    unfolding path_def by blast
qed

theorem dotted_is_nested_witness:
  "field_name ''post'' \<and> field_name ''author'' \<and> field_name ''name''
   \<and> get_filter_expr forum ''Comment'' (JDict [(''post.author.name'', JStr ''Ann'')])
       = Inr (AndExpr [AndExpr
           [ExistsExpr ''Post'' comment_post
              (AndExpr [ExistsExpr ''Author'' post_author
                 (AndExpr [BinaryExpr ''='' (ColumnAttr ''Author'' ''name'') (JStr ''Ann'')])])]])
   \<and> get_filter_expr forum ''Comment''
         (JDict [(''post'', JDict [(''author'', JDict [(''name'', JStr ''Ann'')])])])
       = Inr (AndExpr [AndExpr
           [ExistsExpr ''Post'' comment_post
              (AndExpr [ExistsExpr ''Author'' post_author
                 (AndExpr [BinaryExpr ''='' (ColumnAttr ''Author'' ''name'') (JStr ''Ann'')])])]])"
proof -
  have n: "field_name ''post''" "field_name ''author''" "field_name ''name''"
    by (simp_all add: field_name_def operator_key_def primitive_operators_def
        relationship_operator_keys_def logical_operator_keys_def)
  have g: "getattr forum ''Comment'' ''post'' = Inr comment_post"
    "getattr forum ''Post'' ''author'' = Inr post_author"
    "getattr forum ''Author'' ''name'' = Inr (ColumnAttr ''Author'' ''name'')"
    by (simp_all add: getattr_def forum_def)
  note t = dotted_is_nested [OF n, of forum "''Comment''" "JStr ''Ann''" "''Comment''" "''post''"
      "\<lparr>direction = MANYTOONE, mapper_class = ''Post'', uselist = False,
        local_columns = [\<lparr>col_key = ''post_id'', col_name = ''post_id''\<rparr>],
        local_remote_pairs = [(Some \<lparr>col_key = ''post_id'', col_name = ''post_id''\<rparr>,
                               \<lparr>col_key = ''id'', col_name = ''id''\<rparr>)]\<rparr>"
      "''Post''" "''author''"
      "\<lparr>direction = MANYTOONE, mapper_class = ''Author'', uselist = False,
        local_columns = [\<lparr>col_key = ''author_id'', col_name = ''author_id''\<rparr>],
        local_remote_pairs = [(Some \<lparr>col_key = ''author_id'', col_name = ''author_id''\<rparr>,
                               \<lparr>col_key = ''id'', col_name = ''id''\<rparr>)]\<rparr>"
      "''Author''" "''name''"]
  from t [THEN conjunct2, THEN conjunct2] g
  have dotted: "get_filter_expr forum ''Comment'' (JDict [(''post.author.name'', JStr ''Ann'')])
       = Inr (AndExpr [AndExpr
           [ExistsExpr ''Post'' comment_post
              (AndExpr [ExistsExpr ''Author'' post_author
                 (AndExpr [BinaryExpr ''='' (ColumnAttr ''Author'' ''name'') (JStr ''Ann'')])])]])"
    by (simp add: comment_post_def post_author_def)
  from t [THEN conjunct1]
  have "get_filter_expr forum ''Comment'' (JDict [(''post.author.name'', JStr ''Ann'')])
       = get_filter_expr forum ''Comment''
           (JDict [(''post'', JDict [(''author'', JDict [(''name'', JStr ''Ann'')])])])"
    by simp
  with dotted n show ?thesis by simp
qed

end
